theory Spec2Isabelle
  imports Complex_Main
begin

section \<open>Python values used by the workflow\<close>

text \<open>
  Text is a \<^typ>\<open>string\<close>; a character stands for the Unicode code point of the same
  number (U+0000 to U+00FF), and the \<open>str\<close> methods below are Python's on that range.
  Python's \<open>float\<close> is modelled as an IEEE 754 double, see the section on floats.
\<close>

definition py_isspace :: "char \<Rightarrow> bool" where
  \<comment> \<open>\<open>str.isspace\<close> on one character; the class \<open>\s\<close> of \<open>re\<close> is the same set\<close>
  "py_isspace c = (let n = (of_char c :: nat) in
     (9 \<le> n \<and> n \<le> 13) \<or> (28 \<le> n \<and> n \<le> 32) \<or> n = 133 \<or> n = 160)"

definition py_isalnum_char :: "char \<Rightarrow> bool" where
  "py_isalnum_char c = (let n = (of_char c :: nat) in
     (48 \<le> n \<and> n \<le> 57) \<or> (65 \<le> n \<and> n \<le> 90) \<or> (97 \<le> n \<and> n \<le> 122) \<or>
     n = 170 \<or> n = 178 \<or> n = 179 \<or> n = 181 \<or> n = 185 \<or> n = 186 \<or>
     (188 \<le> n \<and> n \<le> 190) \<or> (192 \<le> n \<and> n \<le> 214) \<or>
     (216 \<le> n \<and> n \<le> 246) \<or> (248 \<le> n \<and> n \<le> 255))"

definition py_lower_char :: "char \<Rightarrow> char" where
  "py_lower_char c = (let n = (of_char c :: nat) in
     if (65 \<le> n \<and> n \<le> 90) \<or> (192 \<le> n \<and> n \<le> 222 \<and> n \<noteq> 215)
     then char_of (n + 32) else c)"

definition py_lower :: "string \<Rightarrow> string" where
  "py_lower s = map py_lower_char s"

definition py_isalnum :: "string \<Rightarrow> bool" where
  \<comment> \<open>\<open>str.isalnum\<close>: false on the empty string\<close>
  "py_isalnum s = (s \<noteq> [] \<and> list_all py_isalnum_char s)"

definition py_strip_where :: "(char \<Rightarrow> bool) \<Rightarrow> string \<Rightarrow> string" where
  "py_strip_where p s = rev (dropWhile p (rev (dropWhile p s)))"

definition py_strip :: "string \<Rightarrow> string" where
  \<comment> \<open>\<open>s.strip()\<close>\<close>
  "py_strip s = py_strip_where py_isspace s"

definition py_strip_chars :: "string \<Rightarrow> string \<Rightarrow> string" where
  \<comment> \<open>\<open>s.strip(chars)\<close>\<close>
  "py_strip_chars cs s = py_strip_where (\<lambda>c. c \<in> set cs) s"

definition py_remove_char :: "char \<Rightarrow> string \<Rightarrow> string" where
  \<comment> \<open>\<open>s.replace(c, '')\<close> for a single character \<open>c\<close>\<close>
  "py_remove_char c s = filter (\<lambda>x. x \<noteq> c) s"

fun py_join :: "string \<Rightarrow> string list \<Rightarrow> string" where
  "py_join sep [] = []"
| "py_join sep [x] = x"
| "py_join sep (x # y # ys) = x @ sep @ py_join sep (y # ys)"

definition digit_char :: "nat \<Rightarrow> char" where
  "digit_char d = char_of (48 + d)"

function str_nat :: "nat \<Rightarrow> string" where
  "str_nat n = (if n < 10 then [digit_char n] else str_nat (n div 10) @ [digit_char (n mod 10)])"
  by pat_completeness auto
termination
  by (relation "measure id") auto

definition str_int :: "int \<Rightarrow> string" where
  \<comment> \<open>\<open>str(i)\<close> for an \<open>int\<close>\<close>
  "str_int i = (if i < 0 then CHR ''-'' # str_nat (nat (- i)) else str_nat (nat i))"

section \<open>Python floats\<close>

text \<open>
  A Python \<open>float\<close> is an IEEE 754 double: a finite value, an infinity or a NaN. A finite
  double is given by the real number it stands for; the two zeros are not told apart
  (no operation of the source does). Every arithmetic operation computes the exact result
  and rounds it to the nearest double, ties to the even significand.
\<close>

datatype pyfloat = Finite real | PosInf | NegInf | NaN

text \<open>
  The binary exponent of a magnitude, kept within the exponents of normal doubles:
  \<open>2\<^sup>e \<le> a < 2\<^sup>e\<^sup>+\<^sup>1\<close> for \<open>e = expo a\<close>, with \<open>e = -1022\<close> below the normal range and
  \<open>e = 1023\<close> above it.
\<close>

fun expo_up :: "nat \<Rightarrow> int \<Rightarrow> real \<Rightarrow> int" where
  "expo_up 0 e a = e"
| "expo_up (Suc n) e a = (if 2 powi (e + 1) \<le> a then expo_up n (e + 1) a else e)"

fun expo_down :: "nat \<Rightarrow> int \<Rightarrow> real \<Rightarrow> int" where
  "expo_down 0 e a = e"
| "expo_down (Suc n) e a = (if a < 2 powi e then expo_down n (e - 1) a else e)"

definition expo :: "real \<Rightarrow> int" where
  "expo a = (if 1 \<le> a then expo_up 1023 0 a else expo_down 1022 0 a)"

definition round_half_even :: "real \<Rightarrow> int" where
  "round_half_even q =
     (let f = \<lfloor>q\<rfloor>; r = q - of_int f
      in if r < 1 / 2 then f else if 1 / 2 < r then f + 1 else if even f then f else f + 1)"

definition ulp :: "real \<Rightarrow> real" where
  \<comment> \<open>the spacing of the doubles around a magnitude: 53 significant bits\<close>
  "ulp a = 2 powi (expo a - 52)"

definition round_magnitude :: "real \<Rightarrow> real" where
  "round_magnitude a = of_int (round_half_even (a / ulp a)) * ulp a"

definition overflow_threshold :: real where
  \<comment> \<open>\<open>2\<^sup>1\<^sup>0\<^sup>2\<^sup>4\<close>, written out\<close>
  "overflow_threshold =
     179769313486231590772930519078902473361797697894230657273430081157732675805500963132708477322407536021120113879871393357658789768814416622492847430639474124377767893424865485276302219601246094119453082952085005768838150682342462881473913110540827237163350510684586298239947245938479716304835356329624224137216"

definition round_double :: "real \<Rightarrow> pyfloat" where
  \<comment> \<open>the double nearest to a real number; an infinity when that is beyond the largest double\<close>
  "round_double x =
     (let m = round_magnitude \<bar>x\<bar>
      in if overflow_threshold \<le> m then (if 0 < x then PosInf else NegInf)
         else Finite (if 0 \<le> x then m else - m))"

definition max_double :: real where
  \<comment> \<open>the largest finite double\<close>
  "max_double = 2 powi 1024 - 2 powi 971"


definition py_float :: "real \<Rightarrow> pyfloat" where
  \<comment> \<open>the value of a decimal literal such as \<open>0.40\<close>\<close>
  "py_float x = round_double x"

definition float_of_int :: "int \<Rightarrow> pyfloat" where
  \<comment> \<open>the conversion of an \<open>int\<close> operand of a float operation\<close>
  "float_of_int i = round_double (of_int i)"

fun fadd :: "pyfloat \<Rightarrow> pyfloat \<Rightarrow> pyfloat" where
  "fadd NaN y = NaN"
| "fadd x NaN = NaN"
| "fadd PosInf NegInf = NaN"
| "fadd NegInf PosInf = NaN"
| "fadd PosInf y = PosInf"
| "fadd NegInf y = NegInf"
| "fadd x PosInf = PosInf"
| "fadd x NegInf = NegInf"
| "fadd (Finite x) (Finite y) = round_double (x + y)"

definition signed_inf :: "bool \<Rightarrow> pyfloat" where
  "signed_inf positive = (if positive then PosInf else NegInf)"

fun fmul :: "pyfloat \<Rightarrow> pyfloat \<Rightarrow> pyfloat" where
  "fmul NaN y = NaN"
| "fmul x NaN = NaN"
| "fmul PosInf PosInf = PosInf"
| "fmul PosInf NegInf = NegInf"
| "fmul NegInf PosInf = NegInf"
| "fmul NegInf NegInf = PosInf"
| "fmul PosInf (Finite y) = (if y = 0 then NaN else signed_inf (0 < y))"
| "fmul NegInf (Finite y) = (if y = 0 then NaN else signed_inf (y < 0))"
| "fmul (Finite x) PosInf = (if x = 0 then NaN else signed_inf (0 < x))"
| "fmul (Finite x) NegInf = (if x = 0 then NaN else signed_inf (x < 0))"
| "fmul (Finite x) (Finite y) = round_double (x * y)"

text \<open>
  The quotient of two floats when the divisor is not zero. For a zero divisor Python
  raises \<open>ZeroDivisionError\<close>: that is \<open>py_truediv\<close>; \<open>fdiv\<close> is used directly only where the
  divisor is a positive integer or has been tested to be positive.
\<close>

fun fdiv :: "pyfloat \<Rightarrow> pyfloat \<Rightarrow> pyfloat" where
  "fdiv NaN y = NaN"
| "fdiv x NaN = NaN"
| "fdiv PosInf PosInf = NaN"
| "fdiv PosInf NegInf = NaN"
| "fdiv NegInf PosInf = NaN"
| "fdiv NegInf NegInf = NaN"
| "fdiv PosInf (Finite y) = signed_inf (0 \<le> y)"
| "fdiv NegInf (Finite y) = signed_inf (y < 0)"
| "fdiv (Finite x) PosInf = Finite 0"
| "fdiv (Finite x) NegInf = Finite 0"
| "fdiv (Finite x) (Finite y) = round_double (x / y)"

definition py_truediv :: "pyfloat \<Rightarrow> pyfloat \<Rightarrow> string + pyfloat" where
  \<comment> \<open>\<open>x / y\<close> on floats\<close>
  "py_truediv x y = (if y = Finite 0 then Inl ''float division by zero'' else Inr (fdiv x y))"

fun fle :: "pyfloat \<Rightarrow> pyfloat \<Rightarrow> bool" where
  \<comment> \<open>\<open>x <= y\<close>\<close>
  "fle NaN y = False"
| "fle x NaN = False"
| "fle NegInf y = True"
| "fle x PosInf = True"
| "fle PosInf y = False"
| "fle x NegInf = False"
| "fle (Finite x) (Finite y) = (x \<le> y)"

fun flt :: "pyfloat \<Rightarrow> pyfloat \<Rightarrow> bool" where
  \<comment> \<open>\<open>x < y\<close>\<close>
  "flt NaN y = False"
| "flt x NaN = False"
| "flt PosInf y = False"
| "flt x NegInf = False"
| "flt NegInf y = True"
| "flt x PosInf = True"
| "flt (Finite x) (Finite y) = (x < y)"

text \<open>
  \<open>sum(xs)\<close> of floats: from \<open>0\<close>, one rounded addition per element, left to right. This
  is the \<open>sum\<close> of CPython up to version 3.11. From 3.12 on, \<open>sum\<close> carries the rounding
  errors along and adds them at the end; on a list of at most two floats that is the same
  value.
\<close>

definition py_sum :: "pyfloat list \<Rightarrow> pyfloat" where
  "py_sum xs = foldl fadd (Finite 0) xs"

text \<open>\<open>max(xs)\<close> of a non-empty list: the first element that no later one exceeds.\<close>

definition py_max :: "pyfloat list \<Rightarrow> pyfloat" where
  "py_max xs = foldl (\<lambda>m x. if flt m x then x else m) (hd xs) (tl xs)"

section \<open>Dictionaries\<close>

text \<open>
  The reason texts of the relevance assessment are f-strings over floats. They are kept
  as the template that was chosen and its arguments; the decimal rendering of a float is
  not modelled.
\<close>

datatype reason_text =
    No_documents_retrieved
  | High_relevance pyfloat
  | Top_similarity_below_threshold pyfloat pyfloat
  | Overall_confidence_below_minimum pyfloat pyfloat

datatype pyval = PBool bool | PFloat pyfloat | PInt int | PStr string | PReason reason_text

type_synonym pydict = "string \<rightharpoonup> pyval"

type_synonym exn = string

fun py_truth :: "pyval \<Rightarrow> bool" where
  "py_truth (PBool b) = b"
| "py_truth (PFloat x) = (x \<noteq> Finite 0)"
| "py_truth (PInt i) = (i \<noteq> 0)"
| "py_truth (PStr s) = (s \<noteq> [])"
| "py_truth (PReason r) = True"

definition dict_get :: "pydict \<Rightarrow> string \<Rightarrow> pyval \<Rightarrow> pyval" where
  \<comment> \<open>\<open>d.get(key, default)\<close>\<close>
  "dict_get d k dflt = (case d k of None \<Rightarrow> dflt | Some v \<Rightarrow> v)"

definition key_error :: "string \<Rightarrow> exn" where
  \<comment> \<open>\<open>str(KeyError(key))\<close>\<close>
  "key_error k = [CHR 0x27] @ k @ [CHR 0x27]"

section \<open>Regular expressions (the fragment of \<open>re\<close> the source uses)\<close>

datatype cclass = Lit char | Dot | Space

datatype regex =
    One cclass
  | Opt cclass
  | Star cclass
  | Plus cclass
  | Seq regex regex
  | Alt regex regex
  | Bol
  | Eol
  | Eps

fun cmatch :: "bool \<Rightarrow> cclass \<Rightarrow> char \<Rightarrow> bool" where
  "cmatch ic (Lit c) x = (if ic then py_lower_char x = py_lower_char c else x = c)"
| "cmatch ic Dot x = (x \<noteq> CHR 0x0A)"
| "cmatch ic Space x = py_isspace x"

text \<open>
  \<open>matchr ic at0 r s\<close>: the remainders of \<open>s\<close> after each way of matching \<open>r\<close> at the
  head of \<open>s\<close>, in the order in which the backtracking matcher tries them (greedy
  repetition, left alternative first). \<open>ic\<close> is the flag \<open>(?i)\<close>; \<open>at0\<close> says that \<open>s\<close> is
  the whole subject, for \<open>^\<close>. \<open>$\<close> matches at the end and before a final newline.
\<close>

fun matchr :: "bool \<Rightarrow> bool \<Rightarrow> regex \<Rightarrow> string \<Rightarrow> string list" where
  "matchr ic at0 (One c) s =
     (case s of [] \<Rightarrow> [] | x # xs \<Rightarrow> if cmatch ic c x then [xs] else [])"
| "matchr ic at0 (Opt c) s =
     (case s of [] \<Rightarrow> [s] | x # xs \<Rightarrow> if cmatch ic c x then [xs, s] else [s])"
| "matchr ic at0 (Star c) s =
     map (\<lambda>k. drop k s) (rev [0 ..< Suc (length (takeWhile (cmatch ic c) s))])"
| "matchr ic at0 (Plus c) s =
     map (\<lambda>k. drop k s) (rev [1 ..< Suc (length (takeWhile (cmatch ic c) s))])"
| "matchr ic at0 (Seq r1 r2) s =
     concat (map (\<lambda>t. matchr ic (at0 \<and> t = s) r2 t) (matchr ic at0 r1 s))"
| "matchr ic at0 (Alt r1 r2) s = matchr ic at0 r1 s @ matchr ic at0 r2 s"
| "matchr ic at0 Bol s = (if at0 then [s] else [])"
| "matchr ic at0 Eol s = (if s = [] \<or> s = [CHR 0x0A] then [s] else [])"
| "matchr ic at0 Eps s = [s]"

fun search_from :: "bool \<Rightarrow> bool \<Rightarrow> regex \<Rightarrow> string \<Rightarrow> bool" where
  "search_from ic at0 r [] = (matchr ic at0 r [] \<noteq> [])"
| "search_from ic at0 r (x # xs) =
     (matchr ic at0 r (x # xs) \<noteq> [] \<or> search_from ic False r xs)"

definition re_search :: "bool \<Rightarrow> regex \<Rightarrow> string \<Rightarrow> bool" where
  \<comment> \<open>the truth value of \<open>re.search(pattern, s)\<close>\<close>
  "re_search ic r s = search_from ic True r s"

text \<open>
  \<open>re.sub(pattern, '', s)\<close>: scanning from the left, the first match found at a position
  is deleted and the scan goes on behind it. Only matches of at least one character are
  taken (every match of the two patterns this is used with has at least one).
\<close>

definition first_match :: "bool \<Rightarrow> bool \<Rightarrow> regex \<Rightarrow> string \<Rightarrow> string option" where
  "first_match ic at0 r s =
     (case matchr ic at0 r s of
        [] \<Rightarrow> None
      | t # _ \<Rightarrow> if length t < length s then Some t else None)"

function sub_from :: "bool \<Rightarrow> bool \<Rightarrow> regex \<Rightarrow> string \<Rightarrow> string" where
  "sub_from ic at0 r s =
     (case first_match ic at0 r s of
        Some t \<Rightarrow> sub_from ic False r t
      | None \<Rightarrow> (case s of [] \<Rightarrow> [] | x # xs \<Rightarrow> x # sub_from ic False r xs))"
  by pat_completeness auto
termination
  apply (relation "measure (\<lambda>(ic, at0, r, s). length s)")
    apply (auto simp: first_match_def split: list.splits if_splits)
  done

definition re_sub_empty :: "bool \<Rightarrow> regex \<Rightarrow> string \<Rightarrow> string" where
  \<comment> \<open>\<open>re.sub(pattern, '', s)\<close>\<close>
  "re_sub_empty ic r s = sub_from ic True r s"

definition seqs :: "regex list \<Rightarrow> regex" where
  "seqs rs = foldr Seq rs Eps"

fun alts :: "regex \<Rightarrow> regex list \<Rightarrow> regex" where
  "alts r [] = r"
| "alts r (q # qs) = Alt r (alts q qs)"

definition word :: "string \<Rightarrow> regex" where
  \<comment> \<open>a run of literal characters\<close>
  "word s = seqs (map (\<lambda>c. One (Lit c)) s)"

section \<open>\<open>src/graph/nodes.py\<close>: the insufficiency classifier\<close>

definition dot_star :: regex where
  "dot_star = Star Dot"

definition insufficient_patterns :: "regex list" where
  "insufficient_patterns =
    [seqs [word ''don'', Opt (Lit (CHR 0x27)), word ''t have'', dot_star, word ''information''],
     seqs [word ''does not contain'', dot_star, word ''information''],
     seqs [word ''not mentioned in'', dot_star, word ''context''],
     seqs [word ''context does not'', dot_star, word ''enough''],
     word ''unable to provide'',
     word ''cannot answer'',
     word ''no information about'',
     seqs [word ''not included in'', dot_star, word ''context''],
     seqs [word ''unfortunately'', dot_star, word ''context'']]"

text \<open>The \<open>for\<close> loop over the patterns, returning at the first one that matches.\<close>

fun any_pattern_matches :: "regex list \<Rightarrow> string \<Rightarrow> bool" where
  "any_pattern_matches [] answer = False"
| "any_pattern_matches (pattern # rest) answer =
     (if re_search True pattern answer then True else any_pattern_matches rest answer)"

definition answer_indicates_insufficient_info :: "string \<Rightarrow> bool" where
  "answer_indicates_insufficient_info answer = any_pattern_matches insufficient_patterns answer"

section \<open>Configuration (\<open>config/settings.py\<close>)\<close>

record Settings =
  TOP_K_RETRIEVAL :: int
  RELEVANCE_THRESHOLD :: pyfloat
  MIN_CONFIDENCE_SCORE :: pyfloat
  MAX_SEARCH_RESULTS :: int

definition default_settings :: Settings where
  "default_settings =
     \<lparr>TOP_K_RETRIEVAL = 5, RELEVANCE_THRESHOLD = py_float 0.50,
      MIN_CONFIDENCE_SCORE = py_float 0.40, MAX_SEARCH_RESULTS = 5\<rparr>"

section \<open>Documents, sources and web results\<close>

text \<open>
  A retrieved \<open>Document\<close>: its text and the two metadata keys the code reads
  (\<open>None\<close>: the key is absent). A source entry is one of the two shapes of dict the code
  builds: \<open>{page, source, preview}\<close> for the knowledge base, \<open>{url, title}\<close> for the web.
\<close>

record Document =
  page_content :: string
  meta_page :: "int option"
  meta_source :: "string option"

datatype source_entry =
    KBSource int string string
  | WebSource string string

record WebResult =
  title :: string
  url :: string
  snippet :: string
  content :: string

section \<open>\<open>src/utils/helpers.py\<close>\<close>

fun source_page :: "source_entry \<Rightarrow> string" where
  \<comment> \<open>\<open>source.get('page', 'Unknown')\<close>, as it is printed\<close>
  "source_page (KBSource page src preview) = str_int page"
| "source_page (WebSource u t) = ''Unknown''"

fun source_url :: "source_entry \<Rightarrow> string" where
  "source_url (KBSource page src preview) = ''Unknown''"
| "source_url (WebSource u t) = u"

fun source_title :: "source_entry \<Rightarrow> string" where
  "source_title (KBSource page src preview) = ''Untitled''"
| "source_title (WebSource u t) = t"

definition enumerate1 :: "'a list \<Rightarrow> (nat \<times> 'a) list" where
  \<comment> \<open>\<open>enumerate(xs, 1)\<close>\<close>
  "enumerate1 xs = zip [1 ..< Suc (length xs)] xs"

definition newline :: string where
  "newline = [CHR 0x0A]"

definition format_citations :: "source_entry list \<Rightarrow> string \<Rightarrow> string" where
  "format_citations sources source_type =
     (if sources = [] then ''No sources available.''
      else if source_type = ''pdf''
      then py_join newline
             (map (\<lambda>(i, source). ''['' @ str_nat i @ ''] Page '' @ source_page source)
                  (enumerate1 sources))
      else py_join newline
             (map (\<lambda>(i, source).
                     ''['' @ str_nat i @ ''] '' @ source_title source @ '' - '' @ source_url source)
                  (enumerate1 sources)))"

definition calculate_relevance_score :: "pyfloat list \<Rightarrow> pyfloat" where
  "calculate_relevance_score similarity_scores =
     (if similarity_scores = [] then Finite 0
      else
        let weights = map (\<lambda>i. fdiv (Finite 1) (float_of_int (int i + 1)))
                        [0 ..< length similarity_scores];
            weighted_sum =
              py_sum (map (\<lambda>(score, weight). fmul score weight) (zip similarity_scores weights));
            weight_total = py_sum weights
        in if flt (Finite 0) weight_total then fdiv weighted_sum weight_total else Finite 0)"

section \<open>\<open>src/rag/retriever.py\<close>\<close>

text \<open>
  The vector index is an external collaborator: \<open>similarity_search_with_score\<close> is a
  parameter that returns the passages with their distances, or raises.
\<close>

record RAGRetriever =
  similarity_search_with_score :: "string \<Rightarrow> int \<Rightarrow> exn + (Document \<times> pyfloat) list"
  relevance_threshold :: pyfloat
  min_confidence :: pyfloat

definition RAGRetriever_init ::
  "Settings \<Rightarrow> (string \<Rightarrow> int \<Rightarrow> exn + (Document \<times> pyfloat) list) \<Rightarrow> RAGRetriever" where
  "RAGRetriever_init settings vector_store =
     \<lparr>similarity_search_with_score = vector_store,
      relevance_threshold = RELEVANCE_THRESHOLD settings,
      min_confidence = MIN_CONFIDENCE_SCORE settings\<rparr>"

definition normalized_score :: "pyfloat \<Rightarrow> exn + pyfloat" where
  \<comment> \<open>\<open>1.0 / (1.0 + d)\<close>; raises when \<open>1.0 + d\<close> is zero\<close>
  "normalized_score d = py_truediv (Finite 1) (fadd (Finite 1) d)"

text \<open>The list comprehension over the distances: the first division that raises ends it.\<close>

fun normalized_scores_of :: "pyfloat list \<Rightarrow> exn + pyfloat list" where
  "normalized_scores_of [] = Inr []"
| "normalized_scores_of (d # ds) =
     (case normalized_score d of
        Inl e \<Rightarrow> Inl e
      | Inr y \<Rightarrow> (case normalized_scores_of ds of Inl e \<Rightarrow> Inl e | Inr ys \<Rightarrow> Inr (y # ys)))"

definition retrieve ::
  "Settings \<Rightarrow> RAGRetriever \<Rightarrow> string \<Rightarrow> int option \<Rightarrow> exn + (Document list \<times> pyfloat list)" where
  "retrieve settings self query top_k =
     (let k = (case top_k of
                 None \<Rightarrow> TOP_K_RETRIEVAL settings
               | Some n \<Rightarrow> if n = 0 then TOP_K_RETRIEVAL settings else n)
      in case similarity_search_with_score self query k of
           Inl e \<Rightarrow> Inl e
         | Inr results \<Rightarrow>
             if results = [] then Inr ([], [])
             else
               let documents = map fst results;
                   scores = map snd results
               in case normalized_scores_of scores of
                    Inl e \<Rightarrow> Inl e
                  | Inr normalized_scores \<Rightarrow> Inr (documents, normalized_scores))"

definition assess_relevance ::
  "RAGRetriever \<Rightarrow> string \<Rightarrow> Document list \<Rightarrow> pyfloat list \<Rightarrow> pydict" where
  "assess_relevance self query documents scores =
     (if documents = [] \<or> scores = [] then
        [''is_relevant'' \<mapsto> PBool False,
         ''confidence'' \<mapsto> PFloat (Finite 0),
         ''reason'' \<mapsto> PReason No_documents_retrieved,
         ''top_score'' \<mapsto> PFloat (Finite 0),
         ''avg_score'' \<mapsto> PFloat (Finite 0)]
      else
        let similarity_scores = scores;
            top_score = py_max similarity_scores;
            avg_score = fdiv (py_sum similarity_scores)
                          (float_of_int (int (length similarity_scores)));
            overall_score = calculate_relevance_score similarity_scores;
            is_relevant =
              (fle (relevance_threshold self) top_score \<and> fle (min_confidence self) overall_score);
            reason =
              (if is_relevant then High_relevance top_score
               else if flt top_score (relevance_threshold self)
               then Top_similarity_below_threshold top_score (relevance_threshold self)
               else Overall_confidence_below_minimum overall_score (min_confidence self))
        in [''is_relevant'' \<mapsto> PBool is_relevant,
            ''confidence'' \<mapsto> PFloat overall_score,
            ''reason'' \<mapsto> PReason reason,
            ''top_score'' \<mapsto> PFloat top_score,
            ''avg_score'' \<mapsto> PFloat avg_score,
            ''num_documents'' \<mapsto> PInt (int (length documents))])"

definition retrieve_and_assess ::
  "Settings \<Rightarrow> RAGRetriever \<Rightarrow> string \<Rightarrow> int option \<Rightarrow> exn + (Document list \<times> pydict)" where
  "retrieve_and_assess settings self query top_k =
     (case retrieve settings self query top_k of
        Inl e \<Rightarrow> Inl e
      | Inr (documents, scores) \<Rightarrow>
          Inr (documents, assess_relevance self query documents scores))"

definition page_label :: "Document \<Rightarrow> string" where
  \<comment> \<open>\<open>doc.metadata.get('page', 'Unknown')\<close>, as it is printed\<close>
  "page_label doc = (case meta_page doc of None \<Rightarrow> ''Unknown'' | Some p \<Rightarrow> str_int p)"

definition format_context :: "Document list \<Rightarrow> string" where
  "format_context documents =
     (if documents = [] then []
      else py_join newline
             (map (\<lambda>(i, doc).
                     ''[Document '' @ str_nat i @ '' - Page '' @ page_label doc @ '']'' @ newline
                       @ py_strip (page_content doc) @ newline)
                  (enumerate1 documents)))"

text \<open>
  The loop of \<open>get_source_metadata\<close> with its two accumulators. \<open>if page and \<dots>\<close> is
  false when the page is absent and when it is \<open>0\<close>.
\<close>

fun source_metadata_loop ::
  "Document list \<Rightarrow> source_entry list \<Rightarrow> int set \<Rightarrow> source_entry list" where
  "source_metadata_loop [] sources seen_pages = sources"
| "source_metadata_loop (doc # rest) sources seen_pages =
     (case meta_page doc of
        None \<Rightarrow> source_metadata_loop rest sources seen_pages
      | Some page \<Rightarrow>
          if page \<noteq> 0 \<and> page \<notin> seen_pages
          then source_metadata_loop rest
                 (sources @
                    [KBSource page
                       (case meta_source doc of None \<Rightarrow> ''Unknown'' | Some src \<Rightarrow> src)
                       (take 200 (page_content doc) @ ''...'')])
                 (insert page seen_pages)
          else source_metadata_loop rest sources seen_pages)"

definition get_source_metadata :: "Document list \<Rightarrow> source_entry list" where
  "get_source_metadata documents = source_metadata_loop documents [] {}"

section \<open>\<open>src/rag/answer_generator.py\<close>\<close>

text \<open>
  The language model is an external collaborator. A prompt is the template that was
  rendered together with the values bound in it; \<open>llm\<close> returns the reply text, or
  raises.
\<close>

datatype prompt =
    RagPrompt "string option" string
  | WebPrompt string string
  | ReformulationPrompt string

record AnswerGenerator =
  llm :: "prompt \<Rightarrow> exn + string"

record AnswerResult =
  r_answer :: string
  r_source_type :: string
  r_sources :: "source_entry list"
  r_citations :: string
  r_success :: bool
  r_error :: "string option"

definition gen_rag_answer ::
  "AnswerGenerator \<Rightarrow> string \<Rightarrow> string option \<Rightarrow> source_entry list \<Rightarrow> AnswerResult" where
  \<comment> \<open>\<open>AnswerGenerator.generate_rag_answer\<close>\<close>
  "gen_rag_answer self question context sources =
     (case llm self (RagPrompt context question) of
        Inr answer \<Rightarrow>
          \<lparr>r_answer = answer,
           r_source_type = ''knowledge_base'',
           r_sources = sources,
           r_citations = format_citations sources ''pdf'',
           r_success = True,
           r_error = None\<rparr>
      | Inl e \<Rightarrow>
          \<lparr>r_answer = ''I apologize, but I encountered an error generating the answer.'',
           r_source_type = ''knowledge_base'',
           r_sources = [],
           r_citations = [],
           r_success = False,
           r_error = Some e\<rparr>)"

definition format_web_results :: "WebResult list \<Rightarrow> string" where
  "format_web_results web_results =
     py_join newline
       (map (\<lambda>(i, result).
               ''['' @ str_nat i @ ''] '' @ title result @ newline
                 @ ''URL: '' @ url result @ newline
                 @ ''Content: '' @ take 500 (content result) @ ''...'' @ newline)
            (enumerate1 web_results))"

definition gen_web_answer ::
  "AnswerGenerator \<Rightarrow> string \<Rightarrow> WebResult list \<Rightarrow> AnswerResult" where
  \<comment> \<open>\<open>AnswerGenerator.generate_web_answer\<close>\<close>
  "gen_web_answer self question web_results =
     (let web_results_text = format_web_results web_results
      in case llm self (WebPrompt web_results_text question) of
           Inr answer \<Rightarrow>
             (let sources = map (\<lambda>result. WebSource (url result) (title result))
                              (take 5 web_results)
              in \<lparr>r_answer = answer,
                  r_source_type = ''web'',
                  r_sources = sources,
                  r_citations = format_citations sources ''web'',
                  r_success = True,
                  r_error = None\<rparr>)
         | Inl e \<Rightarrow>
             \<lparr>r_answer =
                ''I apologize, but I encountered an error generating the answer from web sources.'',
              r_source_type = ''web'',
              r_sources = [],
              r_citations = [],
              r_success = False,
              r_error = Some e\<rparr>)"

definition question_word_pattern :: regex where
  \<comment> \<open>\<open>^(what|how|when|where|why|who|which|can you|please)\s+\<close>\<close>
  "question_word_pattern =
     seqs [Bol,
           alts (word ''what'')
             [word ''how'', word ''when'', word ''where'', word ''why'', word ''who'',
              word ''which'', word ''can you'', word ''please''],
           Plus Space]"

definition question_mark_pattern :: regex where
  \<comment> \<open>\<open>\?$\<close>\<close>
  "question_mark_pattern = seqs [One (Lit CHR ''?''), Eol]"

definition simple_reformulation :: "string \<Rightarrow> string" where
  \<comment> \<open>\<open>AnswerGenerator._simple_reformulation\<close>\<close>
  "simple_reformulation question =
     (let query = re_sub_empty False question_word_pattern (py_lower question);
          query = re_sub_empty False question_mark_pattern query
      in py_strip query)"

definition reformulate_query_for_web :: "AnswerGenerator \<Rightarrow> string \<Rightarrow> string" where
  "reformulate_query_for_web self question =
     (case llm self (ReformulationPrompt question) of
        Inr reply \<Rightarrow>
          (let reformulated = py_strip reply;
               reformulated = py_strip_chars [CHR 0x22, CHR 0x27] reformulated
           in if length reformulated < 3 \<or> \<not> py_isalnum (py_remove_char CHR '' '' reformulated)
              then simple_reformulation question
              else reformulated)
      | Inl e \<Rightarrow> simple_reformulation question)"

section \<open>\<open>src/graph/state.py\<close>\<close>

text \<open>
  The state of one run. \<open>llm_invocations\<close> is not a key of the source's \<open>GraphState\<close>: it
  counts the calls of \<open>llm.invoke\<close> made so far, so that a step that does not consult the
  language model is one that leaves it unchanged.
\<close>

record GraphState =
  question :: string
  reformulated_query :: "string option"
  retrieved_documents :: "Document list"
  retrieval_scores :: "pyval list"
  relevance_assessment :: pydict
  is_knowledge_base_sufficient :: bool
  needs_web_fallback :: bool
  rag_context :: "string option"
  rag_sources :: "source_entry list"
  web_search_query :: "string option"
  web_results :: "WebResult list"
  web_sources :: "source_entry list"
  answer :: string
  source_type :: string
  citations :: string
  error :: "string option"
  metadata :: pydict
  llm_invocations :: nat

definition create_initial_state :: "string \<Rightarrow> GraphState" where
  "create_initial_state q =
     \<lparr>question = q,
      reformulated_query = None,
      retrieved_documents = [],
      retrieval_scores = [],
      relevance_assessment = Map.empty,
      is_knowledge_base_sufficient = False,
      needs_web_fallback = False,
      rag_context = None,
      rag_sources = [],
      web_search_query = None,
      web_results = [],
      web_sources = [],
      answer = [],
      source_type = [],
      citations = [],
      error = None,
      metadata = Map.empty,
      llm_invocations = 0\<rparr>"

section \<open>\<open>src/graph/nodes.py\<close>: the nodes\<close>

text \<open>
  The web searcher is an external collaborator: \<open>search_and_extract\<close> returns the
  enriched results for a query and a maximal number of results, or raises.
\<close>

record WorkflowNodes =
  settings :: Settings
  retriever :: RAGRetriever
  answer_generator :: AnswerGenerator
  search_and_extract :: "string \<Rightarrow> int \<Rightarrow> exn + WebResult list"

text \<open>
  \<open>retrieve_from_kb\<close>. An exception leaves the assignments made before it in place; the
  handler then records the error and clears the sufficiency flag.
\<close>

definition retrieve_from_kb_except :: "exn \<Rightarrow> GraphState \<Rightarrow> GraphState" where
  "retrieve_from_kb_except e state =
     state\<lparr>error := Some e, is_knowledge_base_sufficient := False\<rparr>"

definition retrieve_from_kb :: "WorkflowNodes \<Rightarrow> GraphState \<Rightarrow> GraphState" where
  "retrieve_from_kb self state =
     (case retrieve_and_assess (settings self) (retriever self) (question state) None of
        Inl e \<Rightarrow> retrieve_from_kb_except e state
      | Inr (documents, assessment) \<Rightarrow>
          (let state = state\<lparr>retrieved_documents := documents\<rparr>
           in case assessment ''top_score'' of
                None \<Rightarrow> retrieve_from_kb_except (key_error ''top_score'') state
              | Some top_score \<Rightarrow>
                  (let state = state\<lparr>retrieval_scores := [top_score],
                                     relevance_assessment := assessment\<rparr>
                   in case assessment ''is_relevant'' of
                        None \<Rightarrow> retrieve_from_kb_except (key_error ''is_relevant'') state
                      | Some rel \<Rightarrow>
                          (let state = state\<lparr>is_knowledge_base_sufficient := py_truth rel\<rparr>
                           in if documents \<noteq> []
                              then state\<lparr>rag_context := Some (format_context documents),
                                         rag_sources := get_source_metadata documents\<rparr>
                              else state))))"

text \<open>
  \<open>generate_rag_answer\<close>. The generator catches the failure of the language model itself,
  and nothing else in the \<open>try\<close> block raises, so the node's own handler has no case here.
\<close>

definition generate_rag_answer :: "WorkflowNodes \<Rightarrow> GraphState \<Rightarrow> GraphState" where
  "generate_rag_answer self state =
     (let result = gen_rag_answer (answer_generator self)
                     (question state) (rag_context state) (rag_sources state);
          state = state\<lparr>llm_invocations := llm_invocations state + 1\<rparr>;
          state = state\<lparr>answer := r_answer result,
                        source_type := r_source_type result,
                        citations := r_citations result\<rparr>
      in if answer_indicates_insufficient_info (r_answer result)
         then state\<lparr>is_knowledge_base_sufficient := False, needs_web_fallback := True\<rparr>
         else state)"

definition fallback_notification :: string where
  \<comment> \<open>the warning sign U+26A0 U+FE0F in front is written in UTF-8\<close>
  "fallback_notification =
     [CHR 0xE2, CHR 0x9A, CHR 0xA0, CHR 0xEF, CHR 0xB8, CHR 0x8F]
       @ '' The information was not found in the knowledge base. ''
       @ ''Searching the web for an answer...''"

definition notify_user_fallback :: "WorkflowNodes \<Rightarrow> GraphState \<Rightarrow> GraphState" where
  "notify_user_fallback self state =
     state\<lparr>metadata := (metadata state)(''fallback_notification'' \<mapsto> PStr fallback_notification)\<rparr>"

definition search_web :: "WorkflowNodes \<Rightarrow> GraphState \<Rightarrow> GraphState" where
  "search_web self state =
     (let reformulated = reformulate_query_for_web (answer_generator self) (question state);
          state = state\<lparr>llm_invocations := llm_invocations state + 1\<rparr>;
          state = state\<lparr>web_search_query := Some reformulated\<rparr>
      in case search_and_extract self reformulated (MAX_SEARCH_RESULTS (settings self)) of
           Inr results \<Rightarrow> state\<lparr>web_results := results\<rparr>
         | Inl e \<Rightarrow> state\<lparr>error := Some e, web_results := []\<rparr>)"

definition no_information_answer :: string where
  "no_information_answer =
     ''I apologize, but I couldn't find sufficient information ''
       @ ''in either the knowledge base or the web to answer your question.''"

definition generate_web_answer :: "WorkflowNodes \<Rightarrow> GraphState \<Rightarrow> GraphState" where
  "generate_web_answer self state =
     (if web_results state = []
      then state\<lparr>answer := no_information_answer, source_type := ''none''\<rparr>
      else
        let result = gen_web_answer (answer_generator self) (question state) (web_results state);
            state = state\<lparr>llm_invocations := llm_invocations state + 1\<rparr>
        in state\<lparr>answer := r_answer result,
                 source_type := r_source_type result,
                 citations := r_citations result,
                 web_sources := r_sources result\<rparr>)"

definition format_final_output :: "WorkflowNodes \<Rightarrow> GraphState \<Rightarrow> GraphState" where
  "format_final_output self state =
     (let state = state\<lparr>metadata := (metadata state)
                     (''confidence'' \<mapsto>
                        dict_get (relevance_assessment state) ''confidence'' (PFloat (Finite 0)))\<rparr>
      in state\<lparr>metadata := (metadata state)
                  (''num_sources'' \<mapsto>
                     PInt (int (length (if rag_sources state \<noteq> [] then rag_sources state
                                        else web_sources state))))\<rparr>)"

section \<open>\<open>src/graph/workflow.py\<close>: the graph\<close>

datatype node =
    Retrieve_kb
  | Generate_rag_answer
  | Notify_fallback
  | Search_web
  | Generate_web_answer
  | Format_output
  | END

datatype route = Generate_rag | Fallback_to_web | Use_rag

definition route_after_retrieval :: "GraphState \<Rightarrow> route" where
  "route_after_retrieval state =
     (if is_knowledge_base_sufficient state then Generate_rag else Fallback_to_web)"

definition route_after_rag_answer :: "GraphState \<Rightarrow> route" where
  "route_after_rag_answer state =
     (if needs_web_fallback state then Fallback_to_web else Use_rag)"

text \<open>The function a node name is bound to by \<open>add_node\<close>.\<close>

fun node_function :: "WorkflowNodes \<Rightarrow> node \<Rightarrow> GraphState \<Rightarrow> GraphState" where
  "node_function nodes Retrieve_kb = retrieve_from_kb nodes"
| "node_function nodes Generate_rag_answer = generate_rag_answer nodes"
| "node_function nodes Notify_fallback = notify_user_fallback nodes"
| "node_function nodes Search_web = search_web nodes"
| "node_function nodes Generate_web_answer = generate_web_answer nodes"
| "node_function nodes Format_output = format_final_output nodes"
| "node_function nodes END = (\<lambda>state. state)"

text \<open>
  The edges: the node that follows a node, given the state that node returned. The two
  conditional edges map the label of the routing function to a node.
\<close>

fun next_node :: "node \<Rightarrow> GraphState \<Rightarrow> node" where
  "next_node Retrieve_kb state =
     (case route_after_retrieval state of
        Generate_rag \<Rightarrow> Generate_rag_answer
      | Fallback_to_web \<Rightarrow> Notify_fallback
      | Use_rag \<Rightarrow> END)"
| "next_node Generate_rag_answer state =
     (case route_after_rag_answer state of
        Use_rag \<Rightarrow> Format_output
      | Fallback_to_web \<Rightarrow> Notify_fallback
      | Generate_rag \<Rightarrow> END)"
| "next_node Notify_fallback state = Search_web"
| "next_node Search_web state = Generate_web_answer"
| "next_node Generate_web_answer state = Format_output"
| "next_node Format_output state = END"
| "next_node END state = END"

fun node_rank :: "node \<Rightarrow> nat" where
  "node_rank Retrieve_kb = 6"
| "node_rank Generate_rag_answer = 5"
| "node_rank Notify_fallback = 4"
| "node_rank Search_web = 3"
| "node_rank Generate_web_answer = 2"
| "node_rank Format_output = 1"
| "node_rank END = 0"

text \<open>
  The state a node returns is merged into the state of the graph key by key. The value
  returned replaces the old one, except for \<open>retrieved_documents\<close>, which \<open>state.py\<close>
  declares with the reducer \<open>operator.add\<close>: the list returned is appended to the old one.
\<close>

definition apply_update :: "GraphState \<Rightarrow> GraphState \<Rightarrow> GraphState" where
  "apply_update old returned =
     returned\<lparr>retrieved_documents := retrieved_documents old @ retrieved_documents returned\<rparr>"

definition run_node :: "WorkflowNodes \<Rightarrow> node \<Rightarrow> GraphState \<Rightarrow> GraphState" where
  "run_node nodes n state = apply_update state (node_function nodes n state)"

text \<open>
  Running the graph from a node: the steps taken, each with the node, the state it
  received and the state of the graph after it.
\<close>

function steps_from ::
  "WorkflowNodes \<Rightarrow> node \<Rightarrow> GraphState \<Rightarrow> (node \<times> GraphState \<times> GraphState) list" where
  "steps_from nodes n state =
     (if n = END then []
      else (n, state, run_node nodes n state)
             # steps_from nodes (next_node n (run_node nodes n state))
                 (run_node nodes n state))"
  by pat_completeness auto
termination
  apply (relation "measure (\<lambda>(nodes, n, state). node_rank n)")
   apply simp
  subgoal for nodes n state
    by (cases n)
       (simp_all add: route_after_retrieval_def route_after_rag_answer_def)
  done

definition final_state ::
  "GraphState \<Rightarrow> (node \<times> GraphState \<times> GraphState) list \<Rightarrow> GraphState" where
  "final_state initial steps = (case rev steps of [] \<Rightarrow> initial | (n, s, s') # _ \<Rightarrow> s')"

definition run_steps ::
  "WorkflowNodes \<Rightarrow> string \<Rightarrow> (node \<times> GraphState \<times> GraphState) list" where
  "run_steps nodes q = steps_from nodes Retrieve_kb (create_initial_state q)"

definition run :: "WorkflowNodes \<Rightarrow> string \<Rightarrow> GraphState" where
  \<comment> \<open>\<open>QAWorkflow.run\<close>: no node raises, so its handler has no case\<close>
  "run nodes q = final_state (create_initial_state q) (run_steps nodes q)"

declare steps_from.simps [simp del]

section \<open>Notions used in the statements\<close>



text \<open>
  The locators of a document list: the pages that are present and not \<open>0\<close>, one per
  document that has one, in the order of the documents.
\<close>

fun doc_locators :: "Document list \<Rightarrow> int list" where
  "doc_locators [] = []"
| "doc_locators (doc # rest) =
     (case meta_page doc of
        None \<Rightarrow> doc_locators rest
      | Some page \<Rightarrow> if page \<noteq> 0 then page # doc_locators rest else doc_locators rest)"

definition first_occurrences :: "'a list \<Rightarrow> 'a list" where
  \<comment> \<open>every element once, at the place of its first occurrence\<close>
  "first_occurrences xs = rev (remdups (rev xs))"

fun entry_page :: "source_entry \<Rightarrow> int option" where
  "entry_page (KBSource page src preview) = Some page"
| "entry_page (WebSource u t) = None"

definition source_entry_of :: "int \<Rightarrow> Document \<Rightarrow> source_entry" where
  \<comment> \<open>the entry built from a document for its page\<close>
  "source_entry_of page doc =
     KBSource page
       (case meta_source doc of None \<Rightarrow> ''Unknown'' | Some src \<Rightarrow> src)
       (take 200 (page_content doc) @ ''...'')"

text \<open>The reply of the language model as \<open>reformulate_query_for_web\<close> examines it.\<close>

definition quote_stripped :: "string \<Rightarrow> string" where
  "quote_stripped reply = py_strip_chars [CHR 0x22, CHR 0x27] (py_strip reply)"

definition reply_accepted :: "string \<Rightarrow> bool" where
  \<comment> \<open>at least 3 characters, and alphanumeric once the spaces are removed\<close>
  "reply_accepted r = (3 \<le> length r \<and> py_isalnum (py_remove_char CHR '' '' r))"

section \<open>Collaborators for concrete runs\<close>

definition doc_page_1 :: Document where
  "doc_page_1 = \<lparr>page_content = ''Paris is the capital of France.'', meta_page = Some 1,
                 meta_source = Some ''kb.pdf''\<rparr>"

definition doc_no_page :: Document where
  "doc_no_page = \<lparr>page_content = ''An appendix without page number.'', meta_page = None,
                  meta_source = Some ''kb.pdf''\<rparr>"

definition one_close_passage :: "string \<Rightarrow> int \<Rightarrow> exn + (Document \<times> pyfloat) list" where
  \<comment> \<open>an index that returns one passage at distance \<open>0\<close>\<close>
  "one_close_passage query k = Inr [(doc_page_1, Finite 0)]"

definition llm_unsure :: "prompt \<Rightarrow> exn + string" where
  \<comment> \<open>a model that finds no answer in the passages it is given\<close>
  "llm_unsure p =
     (case p of
        RagPrompt context q \<Rightarrow>
          Inr ''I don't have enough information in the context to answer this.''
      | WebPrompt results q \<Rightarrow> Inr ''Paris, according to the web.''
      | ReformulationPrompt q \<Rightarrow> Inr ''capital of France'')"

definition llm_down :: "prompt \<Rightarrow> exn + string" where
  "llm_down p = Inl ''connection refused''"

definition llm_quoting :: "prompt \<Rightarrow> exn + string" where
  "llm_quoting p = Inr [CHR '' '', CHR 0x22, CHR ''c'', CHR ''a'', CHR ''t'', CHR ''s'', CHR 0x22, CHR 0x0A]"

definition no_web_results :: "string \<Rightarrow> int \<Rightarrow> exn + WebResult list" where
  "no_web_results query k = Inr []"

definition two_web_results :: "string \<Rightarrow> int \<Rightarrow> exn + WebResult list" where
  "two_web_results query k =
     Inr [\<lparr>title = ''Paris'', url = ''https://example.org/paris'', snippet = ''Paris'',
           content = ''Paris is the capital.''\<rparr>,
          \<lparr>title = ''France'', url = ''https://example.org/france'', snippet = ''France'',
           content = ''France is a country.''\<rparr>]"

definition nodes_with ::
  "(prompt \<Rightarrow> exn + string) \<Rightarrow> (string \<Rightarrow> int \<Rightarrow> exn + WebResult list) \<Rightarrow> WorkflowNodes" where
  "nodes_with model searcher =
     \<lparr>settings = default_settings,
      retriever = RAGRetriever_init default_settings one_close_passage,
      answer_generator = \<lparr>llm = model\<rparr>,
      search_and_extract = searcher\<rparr>"

section \<open>Rounding to a double\<close>

lemma two_powi_pos: "0 < (2::real) powi k"
  by simp

lemma two_powi_mono: "k \<le> l \<Longrightarrow> (2::real) powi k \<le> 2 powi l"
  by (rule power_int_increasing) simp_all

lemma two_powi_strict_mono: "k < l \<Longrightarrow> (2::real) powi k < 2 powi l"
  by (rule power_int_strict_increasing) simp_all

lemma two_powi_le_iff: "(2::real) powi k \<le> 2 powi l \<longleftrightarrow> k \<le> l"
proof
  assume le: "(2::real) powi k \<le> 2 powi l"
  show "k \<le> l"
  proof (rule ccontr)
    assume "\<not> k \<le> l"
    then have "l < k" by simp
    then have "(2::real) powi l < 2 powi k" by (rule two_powi_strict_mono)
    with le show False by linarith
  qed
next
  assume "k \<le> l"
  then show "(2::real) powi k \<le> 2 powi l" by (rule two_powi_mono)
qed

lemma two_powi_diff: "(2::real) powi (k - l) = 2 powi k / 2 powi l"
  by (rule power_int_diff) simp

lemma two_powi_of_int:
  assumes "0 \<le> k"
  shows "(2::real) powi k = of_int (2 ^ nat k)"
  using assms by (simp add: power_int_nonneg_exp)

lemma expo_up_props:
  assumes "2 powi e \<le> a"
  shows "e \<le> expo_up n e a \<and> expo_up n e a \<le> e + int n \<and> 2 powi (expo_up n e a) \<le> a \<and>
         (expo_up n e a < e + int n \<longrightarrow> a < 2 powi (expo_up n e a + 1))"
  using assms
proof (induction n arbitrary: e)
  case 0
  then show ?case by simp
next
  case (Suc n)
  show ?case
  proof (cases "2 powi (e + 1) \<le> a")
    case True
    from Suc.IH [OF True] True show ?thesis by auto
  next
    case False
    with Suc.prems show ?thesis by (auto simp: not_le)
  qed
qed

lemma expo_down_props:
  assumes "a < 2 powi (e + 1)"
  shows "e - int n \<le> expo_down n e a \<and> expo_down n e a \<le> e \<and>
         a < 2 powi (expo_down n e a + 1) \<and>
         (e - int n < expo_down n e a \<longrightarrow> 2 powi (expo_down n e a) \<le> a)"
  using assms
proof (induction n arbitrary: e)
  case 0
  then show ?case by simp
next
  case (Suc n)
  show ?case
  proof (cases "a < 2 powi e")
    case True
    then have "a < 2 powi (e - 1 + 1)" by simp
    from Suc.IH [OF this] True show ?thesis by auto
  next
    case False
    with Suc.prems show ?thesis by (auto simp: not_less)
  qed
qed

lemma expo_range: "- 1022 \<le> expo a \<and> expo a \<le> 1023"
proof (cases "1 \<le> a")
  case True
  then have "2 powi 0 \<le> a" by simp
  from expo_up_props [OF this, of 1023] True show ?thesis
    by (simp add: expo_def)
next
  case False
  then have "a < 2 powi (0 + 1)" by simp
  from expo_down_props [OF this, of 1022] False show ?thesis
    by (simp add: expo_def)
qed

lemma expo_lower: "- 1022 < expo a \<Longrightarrow> 2 powi (expo a) \<le> a"
proof (cases "1 \<le> a")
  case True
  then have "2 powi 0 \<le> a" by simp
  from expo_up_props [OF this, of 1023] True show ?thesis
    by (simp add: expo_def)
next
  case False
  assume l: "- 1022 < expo a"
  from False have "a < 2 powi (0 + 1)" by simp
  from expo_down_props [OF this, of 1022] False l show ?thesis
    by (simp add: expo_def)
qed

lemma expo_upper: "expo a < 1023 \<Longrightarrow> a < 2 powi (expo a + 1)"
proof (cases "1 \<le> a")
  case True
  assume u: "expo a < 1023"
  from True have "2 powi 0 \<le> a" by simp
  from expo_up_props [OF this, of 1023] True u show ?thesis
    by (simp add: expo_def)
next
  case False
  then have "a < 2 powi (0 + 1)" by simp
  from expo_down_props [OF this, of 1022] False show ?thesis
    by (simp add: expo_def)
qed

lemma expo_mono:
  assumes "a \<le> b"
  shows "expo a \<le> expo b"
proof (rule ccontr)
  assume "\<not> expo a \<le> expo b"
  then have lt: "expo b < expo a" by simp
  with expo_range [of b] have "- 1022 < expo a" by linarith
  then have 1: "2 powi (expo a) \<le> a" by (rule expo_lower)
  from lt expo_range [of a] have "expo b < 1023" by linarith
  then have 2: "b < 2 powi (expo b + 1)" by (rule expo_upper)
  from lt have "(2::real) powi (expo b + 1) \<le> 2 powi (expo a)"
    by (intro two_powi_mono) simp
  with 1 2 assms show False by linarith
qed

lemma round_half_even_near:
  "of_int (round_half_even q) \<le> q + 1 / 2 \<and> q - 1 / 2 \<le> of_int (round_half_even q)"
  unfolding round_half_even_def Let_def by (simp; linarith)

lemma round_half_even_of_int: "round_half_even (of_int n) = n"
  by (simp add: round_half_even_def)

lemma round_half_even_mono:
  assumes "q \<le> q'"
  shows "round_half_even q \<le> round_half_even q'"
proof (cases "\<lfloor>q\<rfloor> = \<lfloor>q'\<rfloor>")
  case True
  with assms show ?thesis
    unfolding round_half_even_def Let_def by auto
next
  case False
  with assms have "\<lfloor>q\<rfloor> + 1 \<le> \<lfloor>q'\<rfloor>"
    using floor_mono [OF assms] by linarith
  moreover have "round_half_even q \<le> \<lfloor>q\<rfloor> + 1"
    unfolding round_half_even_def Let_def by auto
  moreover have "\<lfloor>q'\<rfloor> \<le> round_half_even q'"
    unfolding round_half_even_def Let_def by auto
  ultimately show ?thesis by linarith
qed

lemma ulp_pos: "0 < ulp a"
  by (simp add: ulp_def)

text \<open>A power of two within the range of the doubles bounds the rounded value as it bounds the exact one.\<close>

lemma round_magnitude_le_pow:
  assumes "a \<le> 2 powi k" and "- 1074 \<le> k"
  shows "round_magnitude a \<le> 2 powi k"
proof -
  have le: "expo a - 52 \<le> k"
  proof (cases "- 1022 < expo a")
    case True
    then have "2 powi (expo a) \<le> a" by (rule expo_lower)
    with assms(1) have "(2::real) powi (expo a) \<le> 2 powi k" by linarith
    then show ?thesis by (simp add: two_powi_le_iff)
  next
    case False
    with expo_range [of a] have "expo a = - 1022" by linarith
    with assms(2) show ?thesis by simp
  qed
  then have nn: "0 \<le> k - (expo a - 52)" by simp
  have "a / ulp a \<le> 2 powi k / ulp a"
    using assms(1) ulp_pos [of a] by (simp add: divide_right_mono)
  also have "2 powi k / ulp a = 2 powi (k - (expo a - 52))"
    by (simp add: ulp_def two_powi_diff)
  also have "\<dots> = of_int (2 ^ nat (k - (expo a - 52)))"
    using nn by (rule two_powi_of_int)
  finally have "round_half_even (a / ulp a) \<le> round_half_even (of_int (2 ^ nat (k - (expo a - 52))))"
    by (rule round_half_even_mono)
  then have "round_half_even (a / ulp a) \<le> 2 ^ nat (k - (expo a - 52))"
    by (simp only: round_half_even_of_int)
  then have "(of_int (round_half_even (a / ulp a)) :: real) \<le> of_int (2 ^ nat (k - (expo a - 52)))"
    by (simp only: of_int_le_iff)
  also have "(of_int (2 ^ nat (k - (expo a - 52))) :: real) = 2 powi (k - (expo a - 52))"
    using nn by (simp only: two_powi_of_int)
  finally have "round_magnitude a \<le> 2 powi (k - (expo a - 52)) * ulp a"
    unfolding round_magnitude_def using ulp_pos [of a] by (simp add: mult_right_mono)
  also have "2 powi (k - (expo a - 52)) * ulp a = 2 powi k"
    by (simp add: ulp_def two_powi_diff)
  finally show ?thesis .
qed

lemma round_magnitude_ge_pow:
  assumes "2 powi k \<le> a" and "- 1074 \<le> k" and "k \<le> 1023"
  shows "2 powi k \<le> round_magnitude a"
proof (cases "expo a - 52 \<le> k")
  case True
  then have nn: "0 \<le> k - (expo a - 52)" by simp
  have "2 powi k / ulp a \<le> a / ulp a"
    using assms(1) ulp_pos [of a] by (simp add: divide_right_mono)
  moreover have "2 powi k / ulp a = 2 powi (k - (expo a - 52))"
    by (simp add: ulp_def two_powi_diff)
  moreover have "(2::real) powi (k - (expo a - 52)) = of_int (2 ^ nat (k - (expo a - 52)))"
    using nn by (rule two_powi_of_int)
  ultimately have "of_int (2 ^ nat (k - (expo a - 52))) \<le> a / ulp a"
    by simp
  then have "round_half_even (of_int (2 ^ nat (k - (expo a - 52)))) \<le> round_half_even (a / ulp a)"
    by (rule round_half_even_mono)
  then have "2 ^ nat (k - (expo a - 52)) \<le> round_half_even (a / ulp a)"
    by (simp only: round_half_even_of_int)
  then have A: "(of_int (2 ^ nat (k - (expo a - 52))) :: real) \<le> of_int (round_half_even (a / ulp a))"
    by (simp only: of_int_le_iff)
  have "(2::real) powi (k - (expo a - 52)) = of_int (2 ^ nat (k - (expo a - 52)))"
    using nn by (rule two_powi_of_int)
  also note A
  finally have "2 powi (k - (expo a - 52)) * ulp a \<le> round_magnitude a"
    unfolding round_magnitude_def using ulp_pos [of a] by (simp add: mult_right_mono)
  moreover have "2 powi (k - (expo a - 52)) * ulp a = 2 powi k"
    by (simp add: ulp_def two_powi_diff)
  ultimately show ?thesis by simp
next
  case False
  then have big: "k + 52 < expo a" by simp
  with assms(2) have "- 1022 < expo a" by linarith
  then have lo: "2 powi (expo a) \<le> a" by (rule expo_lower)
  have "expo a \<le> 1023" using expo_range [of a] by simp
  have "2 powi (expo a) / ulp a \<le> a / ulp a"
    using lo ulp_pos [of a] by (simp add: divide_right_mono)
  moreover have "2 powi (expo a) / ulp a = 2 powi 52"
    by (simp add: ulp_def two_powi_diff)
  ultimately have "of_int (2 ^ 52) \<le> a / ulp a" by simp
  then have "round_half_even (of_int (2 ^ 52)) \<le> round_half_even (a / ulp a)"
    by (rule round_half_even_mono)
  then have "2 ^ 52 \<le> round_half_even (a / ulp a)"
    by (simp only: round_half_even_of_int)
  then have "(of_int (2 ^ 52) :: real) \<le> of_int (round_half_even (a / ulp a))"
    by (simp only: of_int_le_iff)
  then have "(2::real) powi 52 \<le> of_int (round_half_even (a / ulp a))"
    by simp
  then have "2 powi 52 * ulp a \<le> round_magnitude a"
    unfolding round_magnitude_def using ulp_pos [of a] by (simp only: mult_right_mono less_imp_le)
  moreover have "2 powi 52 * ulp a = 2 powi (expo a)"
    by (simp add: ulp_def two_powi_diff)
  moreover have "(2::real) powi k \<le> 2 powi (expo a)"
    using big by (intro two_powi_mono) simp
  ultimately show ?thesis by linarith
qed

lemma round_magnitude_mono:
  assumes "a \<le> b"
  shows "round_magnitude a \<le> round_magnitude b"
proof (cases "expo a = expo b")
  case True
  then have u: "ulp a = ulp b" by (simp add: ulp_def)
  have "a / ulp b \<le> b / ulp b"
    using assms ulp_pos [of b] by (simp add: divide_right_mono)
  then have "round_half_even (a / ulp b) \<le> round_half_even (b / ulp b)"
    by (rule round_half_even_mono)
  then have "(of_int (round_half_even (a / ulp b)) :: real) \<le> of_int (round_half_even (b / ulp b))"
    by (simp only: of_int_le_iff)
  then show ?thesis
    unfolding round_magnitude_def u using ulp_pos [of b] by (simp add: mult_right_mono)
next
  case False
  with expo_mono [OF assms] have lt: "expo a < expo b" by simp
  from lt expo_range [of b] have "expo a < 1023" by linarith
  then have "a \<le> 2 powi (expo a + 1)" using expo_upper [of a] by simp
  moreover have "- 1074 \<le> expo a + 1" using expo_range [of a] by simp
  ultimately have 1: "round_magnitude a \<le> 2 powi (expo a + 1)"
    by (rule round_magnitude_le_pow)
  from lt expo_range [of a] have "- 1022 < expo b" by linarith
  then have "2 powi (expo b) \<le> b" by (rule expo_lower)
  moreover have "- 1074 \<le> expo b" "expo b \<le> 1023" using expo_range [of b] by simp_all
  ultimately have 2: "2 powi (expo b) \<le> round_magnitude b"
    by (rule round_magnitude_ge_pow)
  from lt have "(2::real) powi (expo a + 1) \<le> 2 powi (expo b)"
    by (intro two_powi_mono) simp
  with 1 2 show ?thesis by linarith
qed

lemma round_magnitude_pow:
  assumes "- 1074 \<le> k" and "k \<le> 1023"
  shows "round_magnitude (2 powi k) = 2 powi k"
  using round_magnitude_le_pow [of "2 powi k" k] round_magnitude_ge_pow [of k "2 powi k"] assms
  by simp

lemma round_magnitude_one: "round_magnitude 1 = 1"
  using round_magnitude_pow [of 0] by simp

text \<open>Below the point half-way between the largest double and \<open>2\<^sup>1\<^sup>0\<^sup>2\<^sup>4\<close> nothing overflows.\<close>

lemma round_magnitude_finite:
  assumes "a < 2 powi 1024 - 2 powi 970"
  shows "round_magnitude a < 2 powi 1024"
proof (cases "expo a < 1023")
  case True
  then have "a \<le> 2 powi (expo a + 1)" using expo_upper [of a] by simp
  moreover have "- 1074 \<le> expo a + 1" using expo_range [of a] by simp
  ultimately have "round_magnitude a \<le> 2 powi (expo a + 1)"
    by (rule round_magnitude_le_pow)
  moreover have "(2::real) powi (expo a + 1) < 2 powi 1024"
    using True by (intro two_powi_strict_mono) simp
  ultimately show ?thesis by linarith
next
  case False
  with expo_range [of a] have e: "expo a = 1023" by linarith
  then have u: "ulp a = 2 powi 971" by (simp add: ulp_def)
  have "a / 2 powi 971 < (2 powi 1024 - 2 powi 970) / 2 powi 971"
    using assms by (simp add: divide_strict_right_mono)
  also have "(2 powi 1024 - 2 powi 970) / 2 powi 971 = (2::real) powi 53 - 2 powi (- 1)"
    unfolding diff_divide_distrib two_powi_diff [symmetric] by simp
  finally have q: "a / ulp a < 2 powi 53 - 1 / 2"
    by (simp add: u)
  from round_half_even_near [of "a / ulp a"] q
  have "of_int (round_half_even (a / ulp a)) < (2::real) powi 53"
    by linarith
  then have "of_int (round_half_even (a / ulp a)) * ulp a < (2::real) powi 53 * ulp a"
    using ulp_pos [of a] by (simp only: mult_strict_right_mono)
  moreover have "(2::real) powi 53 * 2 powi 971 = 2 powi 1024"
    unfolding power_int_add [symmetric] by simp
  ultimately show ?thesis
    by (simp add: round_magnitude_def u)
qed

lemma overflow_threshold_eq: "overflow_threshold = 2 powi 1024"
  unfolding overflow_threshold_def by simp

lemma round_double_nonneg:
  assumes "0 \<le> x" and "round_magnitude x < 2 powi 1024"
  shows "round_double x = Finite (round_magnitude x)"
  using assms by (simp add: round_double_def Let_def overflow_threshold_eq del: power_int_numeral)

lemma round_double_one: "round_double 1 = Finite 1"
proof -
  have "(1::real) < 2 powi 1024"
    using two_powi_strict_mono [of 0 1024] by simp
  then show ?thesis
    using round_double_nonneg [of 1] by (simp add: round_magnitude_one del: power_int_numeral)
qed


lemma one_less_two_powi_1024: "(1::real) < 2 powi 1024"
  using two_powi_strict_mono [of 0 1024] by simp



section \<open>Score normalisation\<close>

lemma one_plus_max_double: "d \<le> max_double \<Longrightarrow> 1 + d < 2 powi 1024 - 2 powi 970"
proof -
  assume d: "d \<le> max_double"
  have "(2::real) powi 971 = 2 powi 970 * 2 powi 1"
    unfolding power_int_add [symmetric] by simp
  moreover have "(1::real) < 2 powi 970"
    using two_powi_strict_mono [of 0 970] by simp
  ultimately have "1 + max_double < 2 powi 1024 - 2 powi 970"
    unfolding max_double_def by (simp del: power_int_numeral)
  with d show ?thesis by linarith
qed

text \<open>
  The two roundings of \<open>1.0 / (1.0 + d)\<close> for a finite distance \<open>d \<ge> 0\<close>: neither
  overflows, and the divisor is at least \<open>1\<close>.
\<close>

lemma normalized_score_Finite:
  assumes "0 \<le> d" and "d \<le> max_double"
  shows "normalized_score (Finite d)
           = Inr (Finite (round_magnitude (1 / round_magnitude (1 + d))))"
    and "1 \<le> round_magnitude (1 + d)"
    and "round_magnitude (1 + d) < 2 powi 1024"
proof -
  let ?x = "round_magnitude (1 + d)"
  have "round_magnitude 1 \<le> ?x"
    using assms(1) by (intro round_magnitude_mono) simp
  then show ge: "1 \<le> ?x" by (simp add: round_magnitude_one)
  show fin: "?x < 2 powi 1024"
    using one_plus_max_double [OF assms(2)] by (rule round_magnitude_finite)
  have sum: "round_double (1 + d) = Finite ?x"
    using assms(1) fin round_double_nonneg [of "1 + d"] by simp
  have "round_magnitude (1 / ?x) \<le> round_magnitude 1"
    using ge by (intro round_magnitude_mono) simp
  then have "round_magnitude (1 / ?x) < 2 powi 1024"
    using one_less_two_powi_1024 by (simp add: round_magnitude_one del: power_int_numeral)
  then have "round_double (1 / ?x) = Finite (round_magnitude (1 / ?x))"
    using ge round_double_nonneg [of "1 / ?x"] by simp
  then show "normalized_score (Finite d) = Inr (Finite (round_magnitude (1 / ?x)))"
    using ge by (simp add: normalized_score_def py_truediv_def sum)
qed

lemma normalized_score_bounds:
  assumes "0 \<le> d" and "d \<le> max_double"
  shows "0 < round_magnitude (1 / round_magnitude (1 + d))"
    and "round_magnitude (1 / round_magnitude (1 + d)) \<le> 1"
proof -
  let ?x = "round_magnitude (1 + d)"
  note x = normalized_score_Finite(2,3) [OF assms]
  have "round_magnitude (1 / ?x) \<le> round_magnitude 1"
    using x(1) by (intro round_magnitude_mono) simp
  then show "round_magnitude (1 / ?x) \<le> 1" by (simp add: round_magnitude_one)
  have "1 / 2 powi 1024 \<le> 1 / ?x"
    using x by (intro divide_left_mono) (simp_all del: power_int_numeral)
  then have "2 powi (- 1024) \<le> 1 / ?x"
    by (simp only: power_int_minus_divide)
  then have "2 powi (- 1024) \<le> round_magnitude (1 / ?x)"
    by (rule round_magnitude_ge_pow) simp_all
  moreover have "(0::real) < 2 powi (- 1024)" by (rule two_powi_pos)
  ultimately show "0 < round_magnitude (1 / ?x)" by linarith
qed

text \<open>
  C3 as stated fails for the doubles the code computes with: the distances \<open>0.0\<close> and
  \<open>2\<^sup>-\<^sup>6\<^sup>0\<close> are different and have the same score \<open>1.0\<close>.
\<close>

theorem normalized_score_not_strict:
  "flt (Finite 0) (Finite (1 / 2 ^ 60)) \<and>
   normalized_score (Finite 0) = Inr (Finite 1) \<and>
   normalized_score (Finite (1 / 2 ^ 60)) = Inr (Finite 1)"
proof -
  have a: "flt (Finite 0) (Finite (1 / 2 ^ 60))" by simp
  have b: "normalized_score (Finite 0) = Inr (Finite 1)" by code_simp
  have c: "normalized_score (Finite (1 / 2 ^ 60)) = Inr (Finite 1)" by code_simp
  from a b c show ?thesis by simp
qed

text \<open>
  C3, amended: for every finite distance \<open>d \<ge> 0\<close> the score \<open>1.0 / (1.0 + d)\<close>, computed in
  double precision, is a finite double in the half-open interval \<open>(0, 1]\<close>; it is exactly
  \<open>1.0\<close> at \<open>d = 0\<close>; and it is decreasing, not strictly: \<open>d1 < d2\<close> implies that the score of
  \<open>d1\<close> is greater than or equal to the score of \<open>d2\<close>.
\<close>

theorem normalized_score_range_and_antitone:
  "normalized_score (Finite 0) = Inr (Finite 1) \<and>
   (\<forall>d. 0 \<le> d \<and> d \<le> max_double \<longrightarrow>
      (\<exists>y. normalized_score (Finite d) = Inr (Finite y) \<and> 0 < y \<and> y \<le> 1)) \<and>
   (\<forall>d1 d2 y1 y2.
      0 \<le> d1 \<and> d1 < d2 \<and> d2 \<le> max_double \<and>
      normalized_score (Finite d1) = Inr (Finite y1) \<and>
      normalized_score (Finite d2) = Inr (Finite y2)
      \<longrightarrow> y2 \<le> y1)"
proof -
  have zero: "normalized_score (Finite 0) = Inr (Finite 1)"
    by (simp add: normalized_score_def py_truediv_def round_double_one)
  have range: "\<forall>d. 0 \<le> d \<and> d \<le> max_double \<longrightarrow>
      (\<exists>y. normalized_score (Finite d) = Inr (Finite y) \<and> 0 < y \<and> y \<le> 1)"
    using normalized_score_Finite(1) normalized_score_bounds by blast
  have anti: "y2 \<le> y1"
    if h: "0 \<le> d1" "d1 < d2" "d2 \<le> max_double"
      "normalized_score (Finite d1) = Inr (Finite y1)"
      "normalized_score (Finite d2) = Inr (Finite y2)"
    for d1 d2 y1 y2
  proof -
    from h have r1: "0 \<le> d1" "d1 \<le> max_double" and r2: "0 \<le> d2" "d2 \<le> max_double"
      by simp_all
    have y1: "y1 = round_magnitude (1 / round_magnitude (1 + d1))"
      using normalized_score_Finite(1) [OF r1] h(4) by simp
    have y2: "y2 = round_magnitude (1 / round_magnitude (1 + d2))"
      using normalized_score_Finite(1) [OF r2] h(5) by simp
    have "round_magnitude (1 + d1) \<le> round_magnitude (1 + d2)"
      using h(2) by (intro round_magnitude_mono) simp
    moreover have "0 < round_magnitude (1 + d1)"
      using normalized_score_Finite(2) [OF r1] by simp
    ultimately have "1 / round_magnitude (1 + d2) \<le> 1 / round_magnitude (1 + d1)"
      by (simp add: frac_le)
    then show ?thesis
      unfolding y1 y2 by (rule round_magnitude_mono)
  qed
  from zero range anti show ?thesis by blast
qed

theorem normalized_score_range_and_antitone_witness:
  "(0::real) \<le> 1 \<and> (1::real) < 3 \<and> 3 \<le> max_double \<and>
   normalized_score (Finite 1) = Inr (Finite (1 / 2)) \<and>
   normalized_score (Finite 3) = Inr (Finite (1 / 4)) \<and>
   (1 / 4 :: real) \<le> 1 / 2"
proof -
  have m: "3 \<le> max_double"
  proof -
    have "(2::real) powi 971 \<le> 2 powi 1023" by (intro two_powi_mono) simp
    moreover have "(2::real) powi 1024 = 2 powi 1023 * 2 powi 1"
      unfolding power_int_add [symmetric] by simp
    moreover have "(2::real) powi 2 \<le> 2 powi 1023" by (intro two_powi_mono) simp
    ultimately show ?thesis
      unfolding max_double_def by (simp del: power_int_numeral) simp
  qed
  have a: "normalized_score (Finite 1) = Inr (Finite (1 / 2))" by code_simp
  have b: "normalized_score (Finite 3) = Inr (Finite (1 / 4))" by code_simp
  from normalized_score_range_and_antitone
  have "\<forall>d1 d2 y1 y2.
      0 \<le> d1 \<and> d1 < d2 \<and> d2 \<le> max_double \<and>
      normalized_score (Finite d1) = Inr (Finite y1) \<and>
      normalized_score (Finite d2) = Inr (Finite y2)
      \<longrightarrow> y2 \<le> y1"
    by blast
  from this [rule_format, of 1 3 "1 / 2" "1 / 4"] m a b
  have "(1 / 4 :: real) \<le> 1 / 2" by simp
  with m a b show ?thesis by simp
qed

section \<open>Relevance assessment\<close>
















lemma assess_relevance_nonempty_keys:
  assumes "documents \<noteq> []" and "scores \<noteq> []"
  shows "dom (assess_relevance self query documents scores) =
           {''is_relevant'', ''confidence'', ''reason'', ''top_score'', ''avg_score'',
            ''num_documents''}"
    and "assess_relevance self query documents scores ''num_documents''
           = Some (PInt (int (length documents)))"
  using assms by (auto simp: assess_relevance_def Let_def)

text \<open>
  C6, at the empty passage list: the assessment returned has the five keys
  \<open>is_relevant\<close>, \<open>confidence\<close>, \<open>reason\<close>, \<open>top_score\<close> and \<open>avg_score\<close>, and no passage count
  \<open>num_documents\<close>.
\<close>

theorem assess_relevance_empty_keys:
  "dom (assess_relevance self query [] []) =
     {''is_relevant'', ''confidence'', ''reason'', ''top_score'', ''avg_score''} \<and>
   assess_relevance self query [] [] ''num_documents'' = None"
  by (auto simp: assess_relevance_def)

section \<open>The insufficiency classifier\<close>

lemma any_pattern_matches_iff:
  "any_pattern_matches patterns answer_text \<longleftrightarrow> (\<exists>pattern\<in>set patterns. re_search True pattern answer_text)"
  by (induction patterns) auto

text \<open>
  C7: the classifier returns true for "I don't have enough information in the context to
  answer this." and false for "The capital of France is Paris [Page 3]."; for every answer
  text it returns true if and only if at least one of its case-insensitive patterns is
  found in the text.
\<close>

theorem answer_indicates_insufficient_info_iff:
  "answer_indicates_insufficient_info
     ''I don't have enough information in the context to answer this.'' \<and>
   \<not> answer_indicates_insufficient_info ''The capital of France is Paris [Page 3].'' \<and>
   (\<forall>answer_text. answer_indicates_insufficient_info answer_text
        \<longleftrightarrow> (\<exists>pattern\<in>set insufficient_patterns. re_search True pattern answer_text))"
proof -
  have yes: "answer_indicates_insufficient_info
               ''I don't have enough information in the context to answer this.''"
    by code_simp
  have no: "\<not> answer_indicates_insufficient_info ''The capital of France is Paris [Page 3].''"
    by code_simp
  have gen: "\<forall>answer_text. answer_indicates_insufficient_info answer_text
        \<longleftrightarrow> (\<exists>pattern\<in>set insufficient_patterns. re_search True pattern answer_text)"
    by (simp add: answer_indicates_insufficient_info_def any_pattern_matches_iff)
  from yes no gen show ?thesis by blast
qed

theorem answer_indicates_insufficient_info_witness:
  "(\<exists>pattern\<in>set insufficient_patterns.
      re_search True pattern ''Unfortunately, the CONTEXT is silent on this.'') \<and>
   \<not> (\<exists>pattern\<in>set insufficient_patterns. re_search True pattern ''Page 3 has the answer.'')"
proof -
  have yes: "answer_indicates_insufficient_info ''Unfortunately, the CONTEXT is silent on this.''"
    by code_simp
  have no: "\<not> answer_indicates_insufficient_info ''Page 3 has the answer.''"
    by code_simp
  from yes no answer_indicates_insufficient_info_iff show ?thesis by blast
qed

section \<open>Query reformulation\<close>

text \<open>
  C8 as stated fails: when the language model raises and the question is "?", the query
  returned is empty.
\<close>

theorem reformulate_query_for_web_empty:
  "reformulate_query_for_web \<lparr>llm = llm_down\<rparr> ''?'' = []"
  by code_simp

text \<open>
  C8, amended: for every question and every outcome of the language model, the query is
  the quote-stripped reply when that has at least 3 characters and is alphanumeric
  ignoring spaces, and it is non-empty then; in every other case, the failure of the model
  included, it is the rule-based reformulation of the question.
\<close>

theorem reformulate_query_for_web_cases:
  "(\<forall>reply. llm self (ReformulationPrompt q) = Inr reply \<and>
            reply_accepted (quote_stripped reply)
        \<longrightarrow> reformulate_query_for_web self q = quote_stripped reply \<and>
            reformulate_query_for_web self q \<noteq> []) \<and>
   (\<forall>reply. llm self (ReformulationPrompt q) = Inr reply \<and>
            \<not> reply_accepted (quote_stripped reply)
        \<longrightarrow> reformulate_query_for_web self q = simple_reformulation q) \<and>
   (\<forall>e. llm self (ReformulationPrompt q) = Inl e
        \<longrightarrow> reformulate_query_for_web self q = simple_reformulation q)"
proof -
  have nonempty: "\<And>r. reply_accepted r \<Longrightarrow> r \<noteq> []"
    by (auto simp: reply_accepted_def)
  show ?thesis
    using nonempty
    by (auto simp: reformulate_query_for_web_def quote_stripped_def reply_accepted_def
                   Let_def not_less)
qed

theorem reformulate_query_for_web_cases_witness:
  "llm \<lparr>llm = llm_quoting\<rparr> (ReformulationPrompt ''Which animals purr?'')
     = Inr [CHR '' '', CHR 0x22, CHR ''c'', CHR ''a'', CHR ''t'', CHR ''s'', CHR 0x22, CHR 0x0A] \<and>
   reply_accepted (quote_stripped
     [CHR '' '', CHR 0x22, CHR ''c'', CHR ''a'', CHR ''t'', CHR ''s'', CHR 0x22, CHR 0x0A]) \<and>
   reformulate_query_for_web \<lparr>llm = llm_quoting\<rparr> ''Which animals purr?'' = ''cats'' \<and>
   llm \<lparr>llm = llm_down\<rparr> (ReformulationPrompt ''Which animals purr?'') = Inl ''connection refused'' \<and>
   reformulate_query_for_web \<lparr>llm = llm_down\<rparr> ''Which animals purr?'' = ''animals purr''"
proof -
  have r: "llm \<lparr>llm = llm_quoting\<rparr> (ReformulationPrompt ''Which animals purr?'')
     = Inr [CHR '' '', CHR 0x22, CHR ''c'', CHR ''a'', CHR ''t'', CHR ''s'', CHR 0x22, CHR 0x0A]"
    by (simp add: llm_quoting_def)
  have q: "quote_stripped
     [CHR '' '', CHR 0x22, CHR ''c'', CHR ''a'', CHR ''t'', CHR ''s'', CHR 0x22, CHR 0x0A] = ''cats''"
    by code_simp
  have a: "reply_accepted ''cats''"
    by code_simp
  have d: "llm \<lparr>llm = llm_down\<rparr> (ReformulationPrompt ''Which animals purr?'')
     = Inl ''connection refused''"
    by (simp add: llm_down_def)
  have s: "simple_reformulation ''Which animals purr?'' = ''animals purr''"
    by code_simp
  note t1 = reformulate_query_for_web_cases
               [of "\<lparr>llm = llm_quoting\<rparr>" "''Which animals purr?''"]
  note t2 = reformulate_query_for_web_cases
               [of "\<lparr>llm = llm_down\<rparr>" "''Which animals purr?''"]
  from t1 r q a have "reformulate_query_for_web \<lparr>llm = llm_quoting\<rparr> ''Which animals purr?'' = ''cats''"
    by (metis (no_types))
  moreover from t2 d s
  have "reformulate_query_for_web \<lparr>llm = llm_down\<rparr> ''Which animals purr?'' = ''animals purr''"
    by (metis (no_types))
  ultimately show ?thesis using r q a d by simp
qed

section \<open>Source metadata\<close>

lemma remdups_snoc:
  "remdups (ys @ [x]) = filter (\<lambda>y. y \<noteq> x) (remdups ys) @ [x]"
  by (induction ys) auto

lemma first_occurrences_Cons:
  "first_occurrences (x # xs) = x # filter (\<lambda>y. y \<noteq> x) (first_occurrences xs)"
proof -
  have "remdups (rev xs @ [x]) = filter (\<lambda>y. y \<noteq> x) (remdups (rev xs)) @ [x]"
    by (rule remdups_snoc)
  then show ?thesis
    by (simp add: first_occurrences_def rev_filter)
qed

lemma first_occurrences_Nil: "first_occurrences [] = []"
  by (simp add: first_occurrences_def)

lemma set_first_occurrences: "set (first_occurrences xs) = set xs"
  by (simp add: first_occurrences_def)

lemma distinct_first_occurrences: "distinct (first_occurrences xs)"
  by (simp add: first_occurrences_def)

lemma doc_locators_nonzero: "p \<in> set (doc_locators documents) \<Longrightarrow> p \<noteq> 0"
  by (induction documents) (auto split: option.splits if_splits)

lemma doc_locators_iff:
  "p \<in> set (doc_locators documents) \<longleftrightarrow> (\<exists>d\<in>set documents. meta_page d = Some p) \<and> p \<noteq> 0"
  by (induction documents) (auto split: option.splits if_splits)

text \<open>
  The loop appends, to the sources it has, the pages not seen so far in the order of
  their first occurrence.
\<close>

lemma source_metadata_loop_pages:
  "map entry_page (source_metadata_loop documents sources seen_pages) =
     map entry_page sources
       @ map Some (filter (\<lambda>p. p \<notin> seen_pages) (first_occurrences (doc_locators documents)))"
proof (induction documents arbitrary: sources seen_pages)
  case Nil
  show ?case by (simp add: first_occurrences_Nil)
next
  case (Cons doc rest)
  show ?case
  proof (cases "meta_page doc")
    case None
    then show ?thesis by (simp add: Cons.IH)
  next
    case (Some page)
    show ?thesis
    proof (cases "page \<noteq> 0 \<and> page \<notin> seen_pages")
      case True
      have "filter (\<lambda>p. p \<notin> insert page seen_pages) (first_occurrences (doc_locators rest))
              = filter (\<lambda>p. p \<notin> seen_pages)
                  (filter (\<lambda>y. y \<noteq> page) (first_occurrences (doc_locators rest)))"
        by (auto intro: filter_cong)
      with True Some show ?thesis
        by (simp add: Cons.IH first_occurrences_Cons)
    next
      case False
      show ?thesis
      proof (cases "page = 0")
        case True
        with Some show ?thesis by (simp add: Cons.IH)
      next
        case nz: False
        with False have seen: "page \<in> seen_pages" by simp
        then have "filter (\<lambda>p. p \<notin> seen_pages)
                     (filter (\<lambda>y. y \<noteq> page) (first_occurrences (doc_locators rest)))
                 = filter (\<lambda>p. p \<notin> seen_pages) (first_occurrences (doc_locators rest))"
          by (auto intro: filter_cong)
        with Some nz seen show ?thesis
          by (simp add: Cons.IH first_occurrences_Cons)
      qed
    qed
  qed
qed

text \<open>
  Every entry the loop adds is built from the first document of the list that has the
  entry's page.
\<close>

lemma source_metadata_loop_entries:
  assumes "e \<in> set (source_metadata_loop documents sources seen_pages)"
  shows "e \<in> set sources \<or>
         (\<exists>page d. page \<noteq> 0 \<and> page \<notin> seen_pages \<and>
                    find (\<lambda>d. meta_page d = Some page) documents = Some d \<and>
                    e = source_entry_of page d)"
  using assms
proof (induction documents arbitrary: sources seen_pages)
  case Nil
  then show ?case by simp
next
  case (Cons doc rest)
  show ?case
  proof (cases "meta_page doc")
    case None
    with Cons.prems have "e \<in> set (source_metadata_loop rest sources seen_pages)" by simp
    from Cons.IH [OF this] None show ?thesis by auto
  next
    case (Some page)
    show ?thesis
    proof (cases "page \<noteq> 0 \<and> page \<notin> seen_pages")
      case True
      with Some Cons.prems
      have "e \<in> set (source_metadata_loop rest (sources @ [source_entry_of page doc])
                        (insert page seen_pages))"
        by (simp add: source_entry_of_def)
      from Cons.IH [OF this] Some True show ?thesis by auto
    next
      case False
      with Some Cons.prems have "e \<in> set (source_metadata_loop rest sources seen_pages)"
        by auto
      from Cons.IH [OF this] Some False show ?thesis by auto
    qed
  qed
qed

text \<open>
  C9 as stated fails: a document without a page is not represented in the result, and
  the preview of a short text is shorter than the preview of a long one.
\<close>

theorem get_source_metadata_drops_document:
  "get_source_metadata [doc_no_page] = [] \<and>
   get_source_metadata [doc_page_1]
     = [KBSource 1 ''kb.pdf'' ''Paris is the capital of France....'']"
  by code_simp

text \<open>
  C9, amended: for every document list, \<open>get_source_metadata\<close> returns exactly one entry
  per distinct page that is present and not \<open>0\<close>, in the order of first occurrence; each
  entry carries the page, the source and, as preview, the first 200 characters of the
  text followed by "..." (at most 203 characters) of the first document with that page;
  every document whose page is present and not \<open>0\<close> is represented by the entry of its
  page.
\<close>

theorem get_source_metadata_first_occurrences:
  "map entry_page (get_source_metadata documents)
     = map Some (first_occurrences (doc_locators documents)) \<and>
   distinct (map entry_page (get_source_metadata documents)) \<and>
   (\<forall>e\<in>set (get_source_metadata documents).
      \<exists>page d. find (\<lambda>d. meta_page d = Some page) documents = Some d \<and>
               e = KBSource page
                     (case meta_source d of None \<Rightarrow> ''Unknown'' | Some src \<Rightarrow> src)
                     (take 200 (page_content d) @ ''...'') \<and>
               length (take 200 (page_content d) @ ''...'') \<le> 203) \<and>
   (\<forall>d\<in>set documents. \<forall>page. meta_page d = Some page \<and> page \<noteq> 0
      \<longrightarrow> Some page \<in> set (map entry_page (get_source_metadata documents)))"
proof -
  have pages: "map entry_page (get_source_metadata documents)
                 = map Some (first_occurrences (doc_locators documents))"
    by (simp add: get_source_metadata_def source_metadata_loop_pages)
  have dist: "distinct (map entry_page (get_source_metadata documents))"
    by (simp add: pages distinct_map distinct_first_occurrences)
  have entries: "\<forall>e\<in>set (get_source_metadata documents).
      \<exists>page d. find (\<lambda>d. meta_page d = Some page) documents = Some d \<and>
               e = KBSource page
                     (case meta_source d of None \<Rightarrow> ''Unknown'' | Some src \<Rightarrow> src)
                     (take 200 (page_content d) @ ''...'') \<and>
               length (take 200 (page_content d) @ ''...'') \<le> 203"
  proof
    fix e
    assume "e \<in> set (get_source_metadata documents)"
    then have "e \<in> set (source_metadata_loop documents [] {})"
      by (simp add: get_source_metadata_def)
    from source_metadata_loop_entries [OF this]
    obtain page d where "find (\<lambda>d. meta_page d = Some page) documents = Some d"
      and "e = source_entry_of page d"
      by auto
    then show "\<exists>page d. find (\<lambda>d. meta_page d = Some page) documents = Some d \<and>
               e = KBSource page
                     (case meta_source d of None \<Rightarrow> ''Unknown'' | Some src \<Rightarrow> src)
                     (take 200 (page_content d) @ ''...'') \<and>
               length (take 200 (page_content d) @ ''...'') \<le> 203"
      by (auto simp: source_entry_of_def)
  qed
  have repr: "\<forall>d\<in>set documents. \<forall>page. meta_page d = Some page \<and> page \<noteq> 0
      \<longrightarrow> Some page \<in> set (map entry_page (get_source_metadata documents))"
    using doc_locators_iff [of _ documents]
    by (auto simp: pages set_first_occurrences)
  from pages dist entries repr show ?thesis by blast
qed

theorem get_source_metadata_first_occurrences_witness:
  "doc_page_1 \<in> set [doc_no_page, doc_page_1, doc_page_1] \<and>
   meta_page doc_page_1 = Some 1 \<and> (1::int) \<noteq> 0 \<and>
   get_source_metadata [doc_no_page, doc_page_1, doc_page_1]
     = [KBSource 1 ''kb.pdf'' ''Paris is the capital of France....''] \<and>
   Some 1 \<in> set (map entry_page (get_source_metadata [doc_no_page, doc_page_1, doc_page_1]))"
proof -
  have m: "doc_page_1 \<in> set [doc_no_page, doc_page_1, doc_page_1]" by simp
  have p: "meta_page doc_page_1 = Some 1" by (simp add: doc_page_1_def)
  have v: "get_source_metadata [doc_no_page, doc_page_1, doc_page_1]
             = [KBSource 1 ''kb.pdf'' ''Paris is the capital of France....'']"
    by code_simp
  from get_source_metadata_first_occurrences [of "[doc_no_page, doc_page_1, doc_page_1]"]
  have "\<forall>d\<in>set [doc_no_page, doc_page_1, doc_page_1]. \<forall>page. meta_page d = Some page \<and> page \<noteq> 0
      \<longrightarrow> Some page \<in> set (map entry_page
                              (get_source_metadata [doc_no_page, doc_page_1, doc_page_1]))"
    by blast
  with m p
  have "Some 1 \<in> set (map entry_page (get_source_metadata [doc_no_page, doc_page_1, doc_page_1]))"
    by (metis zero_neq_one)
  with m p v show ?thesis by simp
qed

section \<open>The steps of a run\<close>

lemma steps_from_END: "steps_from nodes END state = []"
  by (subst steps_from.simps) simp

lemma steps_from_step:
  "n \<noteq> END \<Longrightarrow>
   steps_from nodes n state =
     (n, state, run_node nodes n state)
       # steps_from nodes (next_node n (run_node nodes n state))
           (run_node nodes n state)"
  by (subst steps_from.simps) simp

lemma steps_from_Format_output:
  "steps_from nodes Format_output state = [(Format_output, state, run_node nodes Format_output state)]"
  by (simp add: steps_from_step steps_from_END)

lemma steps_from_Notify_fallback:
  "steps_from nodes Notify_fallback state =
     [(Notify_fallback, state, run_node nodes Notify_fallback state),
      (Search_web, run_node nodes Notify_fallback state,
         run_node nodes Search_web (run_node nodes Notify_fallback state)),
      (Generate_web_answer, run_node nodes Search_web (run_node nodes Notify_fallback state),
         run_node nodes Generate_web_answer
           (run_node nodes Search_web (run_node nodes Notify_fallback state))),
      (Format_output,
         run_node nodes Generate_web_answer
           (run_node nodes Search_web (run_node nodes Notify_fallback state)),
         run_node nodes Format_output
           (run_node nodes Generate_web_answer
              (run_node nodes Search_web (run_node nodes Notify_fallback state))))]"
  by (simp add: steps_from_step steps_from_END)

lemma steps_from_Generate_rag_answer:
  "steps_from nodes Generate_rag_answer state =
     (Generate_rag_answer, state, run_node nodes Generate_rag_answer state)
       # (if needs_web_fallback (run_node nodes Generate_rag_answer state)
          then steps_from nodes Notify_fallback (run_node nodes Generate_rag_answer state)
          else steps_from nodes Format_output (run_node nodes Generate_rag_answer state))"
  by (simp add: steps_from_step route_after_rag_answer_def)

lemma steps_from_Retrieve_kb:
  "steps_from nodes Retrieve_kb state =
     (Retrieve_kb, state, run_node nodes Retrieve_kb state)
       # (if is_knowledge_base_sufficient (run_node nodes Retrieve_kb state)
          then steps_from nodes Generate_rag_answer (run_node nodes Retrieve_kb state)
          else steps_from nodes Notify_fallback (run_node nodes Retrieve_kb state))"
  by (simp add: steps_from_step route_after_retrieval_def)

text \<open>
  The merge of a node's result changes \<open>retrieved_documents\<close> and no other key. The first
  node runs on the empty list, so its result is the state of the graph; every later node
  returns the list it received, which the merge then appends to itself.
\<close>

lemma run_node_fields:
  "needs_web_fallback (run_node nodes n state) = needs_web_fallback (node_function nodes n state)"
  "is_knowledge_base_sufficient (run_node nodes n state)
     = is_knowledge_base_sufficient (node_function nodes n state)"
  "answer (run_node nodes n state) = answer (node_function nodes n state)"
  by (simp_all add: run_node_def apply_update_def)

lemma run_node_initial:
  "run_node nodes Retrieve_kb (create_initial_state q)
     = retrieve_from_kb nodes (create_initial_state q)"
proof -
  have "retrieved_documents (create_initial_state q) = []"
    by (simp add: create_initial_state_def)
  then show ?thesis
    by (simp add: run_node_def apply_update_def)
qed

lemma node_function_retrieved_documents:
  "n \<noteq> Retrieve_kb \<Longrightarrow>
   node_function nodes n (state\<lparr>retrieved_documents := d\<rparr>)
     = (node_function nodes n state)\<lparr>retrieved_documents := d\<rparr>"
  by (cases n)
     (simp_all add: generate_rag_answer_def notify_user_fallback_def search_web_def
        generate_web_answer_def format_final_output_def Let_def split: sum.splits)

lemma run_node_doubles:
  assumes "n \<noteq> Retrieve_kb"
  shows "run_node nodes n (state\<lparr>retrieved_documents := d\<rparr>)
           = (node_function nodes n state)\<lparr>retrieved_documents := d @ d\<rparr>"
  by (simp add: run_node_def apply_update_def node_function_retrieved_documents [OF assms])

lemma retrieved_documents_copies:
  "length (retrieved_documents (retrieve_from_kb (nodes_with llm_unsure two_web_results)
                                  (create_initial_state ''q''))) = 1 \<and>
   length (retrieved_documents (run (nodes_with llm_unsure two_web_results) ''q'')) = 32"
proof -
  have a: "length (retrieved_documents (retrieve_from_kb (nodes_with llm_unsure two_web_results)
                                          (create_initial_state ''q''))) = 1"
    by code_simp
  have b: "length (retrieved_documents (run (nodes_with llm_unsure two_web_results) ''q'')) = 32"
    by code_simp
  from a b show ?thesis by simp
qed

text \<open>What each node does to the two flags.\<close>

lemma retrieve_from_kb_needs_web_fallback:
  "needs_web_fallback (retrieve_from_kb nodes state) = needs_web_fallback state"
  by (simp add: retrieve_from_kb_def retrieve_from_kb_except_def Let_def
           split: sum.splits prod.splits option.splits)

lemma notify_user_fallback_flags:
  "needs_web_fallback (notify_user_fallback nodes state) = needs_web_fallback state"
  "is_knowledge_base_sufficient (notify_user_fallback nodes state)
     = is_knowledge_base_sufficient state"
  by (simp_all add: notify_user_fallback_def)

lemma search_web_flags:
  "needs_web_fallback (search_web nodes state) = needs_web_fallback state"
  "is_knowledge_base_sufficient (search_web nodes state) = is_knowledge_base_sufficient state"
  by (simp_all add: search_web_def Let_def split: sum.splits)

lemma generate_web_answer_flags:
  "needs_web_fallback (generate_web_answer nodes state) = needs_web_fallback state"
  "is_knowledge_base_sufficient (generate_web_answer nodes state)
     = is_knowledge_base_sufficient state"
  by (simp_all add: generate_web_answer_def Let_def)

lemma format_final_output_flags:
  "needs_web_fallback (format_final_output nodes state) = needs_web_fallback state"
  "is_knowledge_base_sufficient (format_final_output nodes state)
     = is_knowledge_base_sufficient state"
  by (simp_all add: format_final_output_def Let_def)

lemma generate_rag_answer_answer:
  "answer (generate_rag_answer nodes state) =
     r_answer (gen_rag_answer (answer_generator nodes) (question state)
                 (rag_context state) (rag_sources state))"
  by (simp add: generate_rag_answer_def Let_def)

lemma generate_rag_answer_flags:
  "needs_web_fallback (generate_rag_answer nodes state) \<longleftrightarrow>
     needs_web_fallback state \<or>
     answer_indicates_insufficient_info (answer (generate_rag_answer nodes state))"
  "answer_indicates_insufficient_info (answer (generate_rag_answer nodes state))
     \<Longrightarrow> \<not> is_knowledge_base_sufficient (generate_rag_answer nodes state)"
  unfolding generate_rag_answer_answer
  by (simp_all add: generate_rag_answer_def Let_def)

lemma create_initial_state_flags:
  "\<not> needs_web_fallback (create_initial_state q)"
  by (simp add: create_initial_state_def)

lemma node_function_needs_web_fallback:
  "n \<noteq> Generate_rag_answer \<Longrightarrow>
   needs_web_fallback (node_function nodes n state) = needs_web_fallback state"
  by (cases n)
     (simp_all add: retrieve_from_kb_needs_web_fallback notify_user_fallback_flags
        search_web_flags generate_web_answer_flags format_final_output_flags)

lemma run_node_needs_web_fallback:
  "n \<noteq> Generate_rag_answer \<Longrightarrow>
   needs_web_fallback (run_node nodes n state) = needs_web_fallback state"
  by (simp add: run_node_fields node_function_needs_web_fallback)

lemma run_node_Generate_rag_answer_flags:
  "needs_web_fallback (run_node nodes Generate_rag_answer state) \<longleftrightarrow>
     needs_web_fallback state \<or>
     answer_indicates_insufficient_info (answer (run_node nodes Generate_rag_answer state))"
  "answer_indicates_insufficient_info (answer (run_node nodes Generate_rag_answer state))
     \<Longrightarrow> \<not> is_knowledge_base_sufficient (run_node nodes Generate_rag_answer state)"
  using generate_rag_answer_flags [of nodes state] by (simp_all add: run_node_fields)

text \<open>
  C1: in every run, a step other than \<open>Generate_rag_answer\<close> leaves \<open>needs_web_fallback\<close> as
  it was; \<open>Generate_rag_answer\<close> receives it false and returns it true exactly when the
  classifier fires on the answer text it generated, and then it also returns
  \<open>is_knowledge_base_sufficient\<close> false. The run goes from \<open>Retrieve_kb\<close> to
  \<open>Generate_rag_answer\<close> exactly when \<open>is_knowledge_base_sufficient\<close> is true after the
  retrieval, and from \<open>Generate_rag_answer\<close> to the web path exactly when
  \<open>needs_web_fallback\<close> is true after the answer.
\<close>

theorem needs_web_fallback_only_from_rag_answer:
  "(\<forall>(n, s, s') \<in> set (run_steps nodes q).
      (n \<noteq> Generate_rag_answer \<longrightarrow> needs_web_fallback s' = needs_web_fallback s) \<and>
      (n = Generate_rag_answer \<longrightarrow>
         \<not> needs_web_fallback s \<and>
         (needs_web_fallback s' \<longleftrightarrow> answer_indicates_insufficient_info (answer s')) \<and>
         (needs_web_fallback s' \<longrightarrow> \<not> is_knowledge_base_sufficient s'))) \<and>
   map fst (run_steps nodes q) =
     (if \<not> is_knowledge_base_sufficient (retrieve_from_kb nodes (create_initial_state q))
      then [Retrieve_kb, Notify_fallback, Search_web, Generate_web_answer, Format_output]
      else if needs_web_fallback
                (generate_rag_answer nodes (retrieve_from_kb nodes (create_initial_state q)))
      then [Retrieve_kb, Generate_rag_answer, Notify_fallback, Search_web,
            Generate_web_answer, Format_output]
      else [Retrieve_kb, Generate_rag_answer, Format_output])"
proof -
  let ?s0 = "create_initial_state q"
  let ?s1 = "retrieve_from_kb nodes ?s0"
  let ?t2 = "run_node nodes Generate_rag_answer ?s1"
  have s1: "\<not> needs_web_fallback ?s1"
    by (simp add: retrieve_from_kb_needs_web_fallback create_initial_state_flags)
  have t2: "needs_web_fallback ?t2 = needs_web_fallback (generate_rag_answer nodes ?s1)"
    by (simp add: run_node_fields)
  have frame: "\<forall>(n, s, s') \<in> set (run_steps nodes q).
                 n \<noteq> Generate_rag_answer \<longrightarrow> needs_web_fallback s' = needs_web_fallback s"
    by (auto simp: run_steps_def steps_from_Retrieve_kb steps_from_Generate_rag_answer
          steps_from_Notify_fallback steps_from_Format_output run_node_needs_web_fallback
          split: if_splits)
  have rag_only: "\<forall>(n, s, s') \<in> set (run_steps nodes q).
                    n = Generate_rag_answer \<longrightarrow> s = ?s1 \<and> s' = ?t2"
    by (auto simp: run_steps_def steps_from_Retrieve_kb steps_from_Generate_rag_answer
          steps_from_Notify_fallback steps_from_Format_output run_node_initial
          split: if_splits)
  have rag: "(needs_web_fallback ?t2 \<longleftrightarrow> answer_indicates_insufficient_info (answer ?t2)) \<and>
             (needs_web_fallback ?t2 \<longrightarrow> \<not> is_knowledge_base_sufficient ?t2)"
    using s1 run_node_Generate_rag_answer_flags [of nodes ?s1] by blast
  have path: "map fst (run_steps nodes q) =
     (if \<not> is_knowledge_base_sufficient ?s1
      then [Retrieve_kb, Notify_fallback, Search_web, Generate_web_answer, Format_output]
      else if needs_web_fallback (generate_rag_answer nodes ?s1)
      then [Retrieve_kb, Generate_rag_answer, Notify_fallback, Search_web,
            Generate_web_answer, Format_output]
      else [Retrieve_kb, Generate_rag_answer, Format_output])"
    by (simp add: run_steps_def steps_from_Retrieve_kb steps_from_Generate_rag_answer
          steps_from_Notify_fallback steps_from_Format_output run_node_initial t2)
  from frame rag_only s1 rag have "\<forall>(n, s, s') \<in> set (run_steps nodes q).
      (n \<noteq> Generate_rag_answer \<longrightarrow> needs_web_fallback s' = needs_web_fallback s) \<and>
      (n = Generate_rag_answer \<longrightarrow>
         \<not> needs_web_fallback s \<and>
         (needs_web_fallback s' \<longleftrightarrow> answer_indicates_insufficient_info (answer s')) \<and>
         (needs_web_fallback s' \<longrightarrow> \<not> is_knowledge_base_sufficient s'))"
    by fastforce
  with path show ?thesis by blast
qed

theorem needs_web_fallback_only_from_rag_answer_witness:
  "is_knowledge_base_sufficient
     (retrieve_from_kb (nodes_with llm_unsure no_web_results) (create_initial_state ''q'')) \<and>
   needs_web_fallback
     (generate_rag_answer (nodes_with llm_unsure no_web_results)
        (retrieve_from_kb (nodes_with llm_unsure no_web_results) (create_initial_state ''q''))) \<and>
   map fst (run_steps (nodes_with llm_unsure no_web_results) ''q'') =
     [Retrieve_kb, Generate_rag_answer, Notify_fallback, Search_web,
      Generate_web_answer, Format_output]"
proof -
  have a: "is_knowledge_base_sufficient
     (retrieve_from_kb (nodes_with llm_unsure no_web_results) (create_initial_state ''q''))"
    by code_simp
  have b: "needs_web_fallback
     (generate_rag_answer (nodes_with llm_unsure no_web_results)
        (retrieve_from_kb (nodes_with llm_unsure no_web_results) (create_initial_state ''q'')))"
    by code_simp
  from needs_web_fallback_only_from_rag_answer [of "nodes_with llm_unsure no_web_results" "''q''"]
  have "map fst (run_steps (nodes_with llm_unsure no_web_results) ''q'') =
     (if \<not> is_knowledge_base_sufficient
             (retrieve_from_kb (nodes_with llm_unsure no_web_results) (create_initial_state ''q''))
      then [Retrieve_kb, Notify_fallback, Search_web, Generate_web_answer, Format_output]
      else if needs_web_fallback
                (generate_rag_answer (nodes_with llm_unsure no_web_results)
                   (retrieve_from_kb (nodes_with llm_unsure no_web_results)
                      (create_initial_state ''q'')))
      then [Retrieve_kb, Generate_rag_answer, Notify_fallback, Search_web,
            Generate_web_answer, Format_output]
      else [Retrieve_kb, Generate_rag_answer, Format_output])"
    by blast
  with a b show ?thesis by simp
qed

section \<open>The web answer without web results\<close>

text \<open>
  C4: when the list of web results in the state is empty, \<open>generate_web_answer\<close> returns
  the fixed answer that sufficient information was found neither in the knowledge base
  nor on the web, with source type "none", and the language model is not invoked: the
  count of its invocations is unchanged, and the state returned is the same whatever
  the collaborators are.
\<close>

theorem generate_web_answer_without_results:
  assumes "web_results state = []"
  shows "answer (generate_web_answer nodes state)
           = ''I apologize, but I couldn't find sufficient information in either the knowledge base or the web to answer your question.'' \<and>
         source_type (generate_web_answer nodes state) = ''none'' \<and>
         llm_invocations (generate_web_answer nodes state) = llm_invocations state \<and>
         (\<forall>nodes'. generate_web_answer nodes' state = generate_web_answer nodes state)"
  using assms by (simp add: generate_web_answer_def no_information_answer_def)

theorem generate_web_answer_without_results_witness:
  "web_results (create_initial_state ''q'') = [] \<and>
   source_type (generate_web_answer (nodes_with llm_down no_web_results)
                  (create_initial_state ''q'')) = ''none'' \<and>
   llm_invocations (generate_web_answer (nodes_with llm_down no_web_results)
                      (create_initial_state ''q'')) = 0"
proof -
  have e: "web_results (create_initial_state ''q'') = []"
    by (simp add: create_initial_state_def)
  have z: "llm_invocations (create_initial_state ''q'') = 0"
    by (simp add: create_initial_state_def)
  from generate_web_answer_without_results [OF e, of "nodes_with llm_down no_web_results"] e z
  show ?thesis by simp
qed

text \<open>
  The run that goes through the answer from the knowledge base and then through the web:
  its final state is the composition of the six nodes, up to \<open>retrieved_documents\<close>.
\<close>

lemma run_via_rag_and_web:
  assumes "is_knowledge_base_sufficient (retrieve_from_kb nodes (create_initial_state q))"
    and "needs_web_fallback
           (generate_rag_answer nodes (retrieve_from_kb nodes (create_initial_state q)))"
  shows "\<exists>d. run nodes q =
           (format_final_output nodes
              (generate_web_answer nodes
                 (search_web nodes
                    (notify_user_fallback nodes
                       (generate_rag_answer nodes
                          (retrieve_from_kb nodes (create_initial_state q)))))))
           \<lparr>retrieved_documents := d\<rparr>"
proof -
  let ?s1 = "retrieve_from_kb nodes (create_initial_state q)"
  let ?s2 = "generate_rag_answer nodes ?s1"
  let ?s3 = "notify_user_fallback nodes ?s2"
  let ?s4 = "search_web nodes ?s3"
  let ?s5 = "generate_web_answer nodes ?s4"
  let ?s6 = "format_final_output nodes ?s5"
  define d1 where "d1 = retrieved_documents ?s1"
  define d2 where "d2 = d1 @ d1"
  define d3 where "d3 = d2 @ d2"
  define d4 where "d4 = d3 @ d3"
  define d5 where "d5 = d4 @ d4"
  define d6 where "d6 = d5 @ d5"
  have s1: "?s1 = ?s1\<lparr>retrieved_documents := d1\<rparr>"
    by (simp add: d1_def)
  have t2: "run_node nodes Generate_rag_answer ?s1 = ?s2\<lparr>retrieved_documents := d2\<rparr>"
    using run_node_doubles [where n = Generate_rag_answer and nodes = nodes and state = "?s1" and d = d1] s1 by (simp add: d2_def)
  have t3: "run_node nodes Notify_fallback (?s2\<lparr>retrieved_documents := d2\<rparr>)
              = ?s3\<lparr>retrieved_documents := d3\<rparr>"
    using run_node_doubles [where n = Notify_fallback and nodes = nodes and state = "?s2" and d = d2] by (simp add: d3_def)
  have t4: "run_node nodes Search_web (?s3\<lparr>retrieved_documents := d3\<rparr>)
              = ?s4\<lparr>retrieved_documents := d4\<rparr>"
    using run_node_doubles [where n = Search_web and nodes = nodes and state = "?s3" and d = d3] by (simp add: d4_def)
  have t5: "run_node nodes Generate_web_answer (?s4\<lparr>retrieved_documents := d4\<rparr>)
              = ?s5\<lparr>retrieved_documents := d5\<rparr>"
    using run_node_doubles [where n = Generate_web_answer and nodes = nodes and state = "?s4" and d = d4] by (simp add: d5_def)
  have t6: "run_node nodes Format_output (?s5\<lparr>retrieved_documents := d5\<rparr>)
              = ?s6\<lparr>retrieved_documents := d6\<rparr>"
    using run_node_doubles [where n = Format_output and nodes = nodes and state = "?s5" and d = d5] by (simp add: d6_def)
  have fb: "needs_web_fallback (?s2\<lparr>retrieved_documents := d2\<rparr>)"
    using assms(2) by simp
  have "run nodes q = ?s6\<lparr>retrieved_documents := d6\<rparr>"
    using assms(1) fb
    by (simp add: run_def run_steps_def final_state_def steps_from_Retrieve_kb
          steps_from_Generate_rag_answer steps_from_Notify_fallback run_node_initial
          t2 t3 t4 t5 t6)
  then show ?thesis by blast
qed

lemma error_apology_not_insufficient:
  "\<not> answer_indicates_insufficient_info
       ''I apologize, but I encountered an error generating the answer.''"
  by code_simp

lemma generate_rag_answer_citations:
  assumes "needs_web_fallback (generate_rag_answer nodes state)"
    and "\<not> needs_web_fallback state"
  shows "citations (generate_rag_answer nodes state) = format_citations (rag_sources state) ''pdf''"
proof (cases "llm (answer_generator nodes) (RagPrompt (rag_context state) (question state))")
  case (Inl e)
  then have "\<not> needs_web_fallback (generate_rag_answer nodes state)"
    using assms(2) error_apology_not_insufficient
    by (simp add: generate_rag_answer_def gen_rag_answer_def Let_def)
  with assms(1) show ?thesis by simp
next
  case (Inr reply)
  then show ?thesis
    by (simp add: generate_rag_answer_def gen_rag_answer_def Let_def)
qed

lemma citations_kept:
  "citations (notify_user_fallback nodes state) = citations state"
  "citations (search_web nodes state) = citations state"
  "citations (format_final_output nodes state) = citations state"
  by (simp_all add: notify_user_fallback_def search_web_def format_final_output_def Let_def
        split: sum.splits)

lemma web_sources_kept:
  "web_sources (retrieve_from_kb nodes state) = web_sources state"
  "web_sources (generate_rag_answer nodes state) = web_sources state"
  "web_sources (notify_user_fallback nodes state) = web_sources state"
  "web_sources (search_web nodes state) = web_sources state"
  "web_sources (format_final_output nodes state) = web_sources state"
  by (simp_all add: retrieve_from_kb_def retrieve_from_kb_except_def generate_rag_answer_def
        notify_user_fallback_def search_web_def format_final_output_def Let_def
        split: sum.splits prod.splits option.splits)

lemma format_final_output_answer:
  "source_type (format_final_output nodes state) = source_type state"
  "answer (format_final_output nodes state) = answer state"
  by (simp_all add: format_final_output_def Let_def)

text \<open>
  C10: on the branch without web results, \<open>generate_web_answer\<close> changes the answer and the
  source type and nothing else. So a run in which the retrieval was sufficient, the
  classifier fired on the answer from the knowledge base and the web search brought no
  result, ends with source type "none", the fixed answer, no web sources, and the
  citations of the answer from the knowledge base.
\<close>

theorem generate_web_answer_keeps_other_fields:
  "(web_results state = [] \<longrightarrow>
      generate_web_answer nodes state
        = state\<lparr>answer := no_information_answer, source_type := ''none''\<rparr>) \<and>
   (is_knowledge_base_sufficient (retrieve_from_kb nodes (create_initial_state q)) \<and>
    needs_web_fallback
      (generate_rag_answer nodes (retrieve_from_kb nodes (create_initial_state q))) \<and>
    web_results
      (search_web nodes
         (notify_user_fallback nodes
            (generate_rag_answer nodes (retrieve_from_kb nodes (create_initial_state q))))) = []
    \<longrightarrow>
      source_type (run nodes q) = ''none'' \<and>
      answer (run nodes q) = no_information_answer \<and>
      web_sources (run nodes q) = [] \<and>
      citations (run nodes q)
        = citations (generate_rag_answer nodes (retrieve_from_kb nodes (create_initial_state q))) \<and>
      citations (run nodes q)
        = format_citations (rag_sources (retrieve_from_kb nodes (create_initial_state q))) ''pdf'')"
proof -
  let ?s1 = "retrieve_from_kb nodes (create_initial_state q)"
  let ?s2 = "generate_rag_answer nodes ?s1"
  let ?s4 = "search_web nodes (notify_user_fallback nodes ?s2)"
  have frame: "\<And>st. web_results st = [] \<Longrightarrow>
      generate_web_answer nodes st = st\<lparr>answer := no_information_answer, source_type := ''none''\<rparr>"
    by (simp add: generate_web_answer_def)
  have scenario: "source_type (run nodes q) = ''none'' \<and>
      answer (run nodes q) = no_information_answer \<and>
      web_sources (run nodes q) = [] \<and>
      citations (run nodes q) = citations ?s2 \<and>
      citations (run nodes q) = format_citations (rag_sources ?s1) ''pdf''"
    if suff: "is_knowledge_base_sufficient ?s1" and fb: "needs_web_fallback ?s2"
      and none: "web_results ?s4 = []"
  proof -
    from run_via_rag_and_web [OF suff fb] obtain d where
      r: "run nodes q
            = (format_final_output nodes (generate_web_answer nodes ?s4))\<lparr>retrieved_documents := d\<rparr>"
      by blast
    have g: "generate_web_answer nodes ?s4
               = ?s4\<lparr>answer := no_information_answer, source_type := ''none''\<rparr>"
      using none by (rule frame)
    have c: "citations (run nodes q) = citations ?s2"
      by (simp add: r g citations_kept)
    have s1: "\<not> needs_web_fallback ?s1"
      by (simp add: retrieve_from_kb_needs_web_fallback create_initial_state_flags)
    have k: "citations ?s2 = format_citations (rag_sources ?s1) ''pdf''"
      using fb s1 by (rule generate_rag_answer_citations)
    have "web_sources (run nodes q) = web_sources (create_initial_state q)"
      by (simp add: r g web_sources_kept)
    then have w: "web_sources (run nodes q) = []"
      by (simp add: create_initial_state_def)
    have t: "source_type (run nodes q) = ''none'' \<and> answer (run nodes q) = no_information_answer"
      by (simp add: r g format_final_output_answer)
    from c k w t show ?thesis by simp
  qed
  from frame scenario show ?thesis by blast
qed

theorem generate_web_answer_keeps_other_fields_witness:
  "is_knowledge_base_sufficient
     (retrieve_from_kb (nodes_with llm_unsure no_web_results) (create_initial_state ''q'')) \<and>
   needs_web_fallback
     (generate_rag_answer (nodes_with llm_unsure no_web_results)
        (retrieve_from_kb (nodes_with llm_unsure no_web_results) (create_initial_state ''q''))) \<and>
   web_results
     (search_web (nodes_with llm_unsure no_web_results)
        (notify_user_fallback (nodes_with llm_unsure no_web_results)
           (generate_rag_answer (nodes_with llm_unsure no_web_results)
              (retrieve_from_kb (nodes_with llm_unsure no_web_results)
                 (create_initial_state ''q''))))) = [] \<and>
   source_type (run (nodes_with llm_unsure no_web_results) ''q'') = ''none'' \<and>
   citations (run (nodes_with llm_unsure no_web_results) ''q'') = ''[1] Page 1''"
proof -
  let ?N = "nodes_with llm_unsure no_web_results"
  have a: "is_knowledge_base_sufficient (retrieve_from_kb ?N (create_initial_state ''q''))"
    by code_simp
  have b: "needs_web_fallback
             (generate_rag_answer ?N (retrieve_from_kb ?N (create_initial_state ''q'')))"
    by code_simp
  have c: "web_results
             (search_web ?N
                (notify_user_fallback ?N
                   (generate_rag_answer ?N (retrieve_from_kb ?N (create_initial_state ''q''))))) = []"
    by code_simp
  have d: "format_citations (rag_sources (retrieve_from_kb ?N (create_initial_state ''q''))) ''pdf''
             = ''[1] Page 1''"
    by code_simp
  from generate_web_answer_keeps_other_fields [of _ ?N "''q''"] a b c
  have "source_type (run ?N ''q'') = ''none'' \<and>
        citations (run ?N ''q'')
          = format_citations (rag_sources (retrieve_from_kb ?N (create_initial_state ''q''))) ''pdf''"
    by blast
  with a b c d show ?thesis by simp
qed

section \<open>The metadata of the final output\<close>

lemma format_final_output_metadata:
  "metadata (format_final_output nodes state) ''confidence''
     = Some (dict_get (relevance_assessment state) ''confidence'' (PFloat (Finite 0)))"
  "metadata (format_final_output nodes state) ''num_sources''
     = Some (PInt (int (length (if rag_sources state \<noteq> [] then rag_sources state
                                else web_sources state))))"
  by (simp_all add: format_final_output_def Let_def)

text \<open>
  C5, at a run that falls back to the web: the retrieval finds one passage on page 1, the
  answer from the knowledge base is classified as insufficient, the web search returns
  two results and the web answer cites both. The final source type is "web" with two web
  sources, the confidence in the metadata is that of the assessment, and \<open>num_sources\<close> is
  \<open>1\<close>, the number of knowledge-base sources.
\<close>

theorem num_sources_on_web_path:
  "source_type (run (nodes_with llm_unsure two_web_results) ''q'') = ''web'' \<and>
   length (web_sources (run (nodes_with llm_unsure two_web_results) ''q'')) = 2 \<and>
   length (rag_sources (run (nodes_with llm_unsure two_web_results) ''q'')) = 1 \<and>
   metadata (run (nodes_with llm_unsure two_web_results) ''q'') ''num_sources'' = Some (PInt 1) \<and>
   metadata (run (nodes_with llm_unsure two_web_results) ''q'') ''confidence''
     = relevance_assessment (run (nodes_with llm_unsure two_web_results) ''q'') ''confidence''"
proof -
  have a: "source_type (run (nodes_with llm_unsure two_web_results) ''q'') = ''web''"
    by code_simp
  have b: "length (web_sources (run (nodes_with llm_unsure two_web_results) ''q'')) = 2"
    by code_simp
  have c: "length (rag_sources (run (nodes_with llm_unsure two_web_results) ''q'')) = 1"
    by code_simp
  have d: "metadata (run (nodes_with llm_unsure two_web_results) ''q'') ''num_sources''
             = Some (PInt 1)"
    by code_simp
  have e: "metadata (run (nodes_with llm_unsure two_web_results) ''q'') ''confidence''
             = Some (PFloat (Finite 1))"
    by code_simp
  have f: "relevance_assessment (run (nodes_with llm_unsure two_web_results) ''q'') ''confidence''
             = Some (PFloat (Finite 1))"
    by code_simp
  from a b c d e f show ?thesis by simp
qed

end
